theory Spec2Isabelle
  imports Complex_Main "HOL-Library.AList"
begin

section \<open>The chat-room server: data model\<close>

text \<open>
  The server part of \<^verbatim>\<open>chat.tsx\<close> (the Socket.IO script that follows the React
  component) keeps one module-level \<^verbatim>\<open>rooms\<close> map and, inside every
  \<^verbatim>\<open>io.on('connection', ...)\<close> callback, one \<^verbatim>\<open>roomTimers\<close> map per connection.
  JavaScript maps iterate in insertion order, so \<^verbatim>\<open>rooms\<close> and each room's
  \<^verbatim>\<open>participants\<close> are association lists driven by \<open>AList.update\<close> (replace in
  place, append when new) and \<open>AList.delete\<close>; \<^verbatim>\<open>size\<close> is the length of the list.
\<close>

type_synonym socket_id = string
type_synonym pin = string
type_synonym timer_id = nat

record message =
  msg_id :: "string option"
  author :: string
  content :: string

text \<open>
  \<^verbatim>\<open>maxParticipants\<close> holds whatever number the \<^verbatim>\<open>create_room\<close> request carries:
  the server does not check that it is whole or in a range, and only compares it with
  \<^verbatim>\<open>participants.size\<close>. It is a real number here; the comparisons of the code are
  exact on doubles.
\<close>

record room =
  number :: string
  participants :: "(socket_id \<times> string) list"
  maxParticipants :: real
  messages :: "message list"

text \<open>
  What the code hangs on a socket object: \<^verbatim>\<open>socket.nickname\<close>,
  \<^verbatim>\<open>socket.currentRoom\<close>, the Socket.IO rooms entered with \<^verbatim>\<open>socket.join\<close>, and
  the \<^verbatim>\<open>roomTimers\<close> map declared with \<^verbatim>\<open>const\<close> inside the connection callback.
  The closure outlives the connection (a timer callback still refers to it), so the
  record stays in the state after a disconnect, with \<open>online = False\<close>.
\<close>

record socket =
  nickname :: "string option"
  currentRoom :: "pin option"
  joined :: "pin set"
  roomTimers :: "pin \<rightharpoonup> timer_id"
  online :: bool

text \<open>
  A pending \<^verbatim>\<open>setTimeout\<close>: the callback of \<^verbatim>\<open>leaveCurrentRoom\<close> captures the
  pin and the \<^verbatim>\<open>roomTimers\<close> of the connection that armed it.
\<close>

record timer =
  owner :: socket_id
  tpin :: pin
  delay :: nat

record state =
  rooms :: "(pin \<times> room) list"
  sockets :: "socket_id \<rightharpoonup> socket"
  pending :: "(timer_id \<times> timer) list"
  nextTimer :: timer_id

datatype target = ToSocket socket_id | ToRoom pin | ToAll

datatype payload =
    HostInfo
  | AvailableRooms "(pin \<times> string \<times> nat \<times> real) list"
  | RoomParticipants "string list"
  | RoomCreated pin "string option" nat real
  | JoinError string
  | RoomHistory "message list"
  | UserJoined string string nat real
  | UserLeft "string option" string nat real
  | ReceiveMessage message

type_synonym emission = "target \<times> payload"

datatype event =
    Connect socket_id
  | Disconnect socket_id
  | CreateRoom socket_id "real option" "string option" string "real list"
  | JoinRoom socket_id pin string
  | SendMessage socket_id message
  | LeaveRoom socket_id
  | GetAvailableRooms socket_id
  | GetRoomParticipants socket_id
  | TimerFire timer_id

definition init_state :: state where
  "init_state = \<lparr>rooms = [], sockets = Map.empty, pending = [], nextTimer = 0\<rparr>"

section \<open>Helpers of the runtime\<close>

definition has :: "('k \<times> 'v) list \<Rightarrow> 'k \<Rightarrow> bool" where
  "has m k = (map_of m k \<noteq> None)"

definition sin_numero :: string where
  "sin_numero = ''Sin n'' @ [CHR 0xFA] @ ''mero''"

definition msg_no_existe :: string where
  "msg_no_existe = ''La sala no existe. Verifica el PIN e intenta nuevamente.''"

definition msg_llena :: string where
  "msg_llena = ''La sala est'' @ [CHR 0xE1] @ '' llena. Intenta m'' @ [CHR 0xE1]
     @ ''s tarde o crea una nueva sala.''"

text \<open>\<^verbatim>\<open>x || d\<close> on a string: the empty string is falsy.\<close>

definition or_default :: "string \<Rightarrow> string \<Rightarrow> string" where
  "or_default s d = (if s = [] then d else s)"

definition upd_socket :: "socket_id \<Rightarrow> (socket \<Rightarrow> socket) \<Rightarrow> state \<Rightarrow> state" where
  "upd_socket sid f st =
     (case sockets st sid of
        None \<Rightarrow> st
      | Some s \<Rightarrow> st\<lparr>sockets := (sockets st)(sid \<mapsto> f s)\<rparr>)"

definition timers_of :: "state \<Rightarrow> socket_id \<Rightarrow> pin \<rightharpoonup> timer_id" where
  "timers_of st sid = (case sockets st sid of None \<Rightarrow> Map.empty | Some s \<Rightarrow> roomTimers s)"

definition current_of :: "state \<Rightarrow> socket_id \<Rightarrow> pin option" where
  "current_of st sid = (case sockets st sid of None \<Rightarrow> None | Some s \<Rightarrow> currentRoom s)"

definition nickname_of :: "state \<Rightarrow> socket_id \<Rightarrow> string option" where
  "nickname_of st sid = (case sockets st sid of None \<Rightarrow> None | Some s \<Rightarrow> nickname s)"

definition clearTimeout :: "timer_id \<Rightarrow> state \<Rightarrow> state" where
  "clearTimeout t st = st\<lparr>pending := AList.delete t (pending st)\<rparr>"

definition setTimeout :: "timer \<Rightarrow> state \<Rightarrow> timer_id \<times> state" where
  "setTimeout tm st =
     (nextTimer st,
      st\<lparr>pending := pending st @ [(nextTimer st, tm)], nextTimer := Suc (nextTimer st)\<rparr>)"

section \<open>The server's functions\<close>

definition getAvailableRooms :: "(pin \<times> room) list \<Rightarrow> (pin \<times> string \<times> nat \<times> real) list" where
  "getAvailableRooms rs =
     map (\<lambda>(p, r). (p, number r, length (participants r), maxParticipants r))
       (filter (\<lambda>(p, r). real (length (participants r)) < maxParticipants r) rs)"

text \<open>Decimal \<^verbatim>\<open>Number.prototype.toString\<close> on a non-negative integer.\<close>

definition digit :: "nat \<Rightarrow> char" where
  "digit d = ''0123456789'' ! (d mod 10)"

fun toString :: "nat \<Rightarrow> string" where
  "toString n = (if n < 10 then [digit n] else toString (n div 10) @ [digit (n mod 10)])"

declare toString.simps [simp del]

text \<open>
  JavaScript numbers are IEEE 754 doubles. \<open>round_double\<close> rounds a real number to the
  nearest double, ties to even: \<open>binade x\<close> is the binary exponent of \<open>x\<close> (never
  below -1022, the exponent of the subnormals), \<open>ulp x\<close> the distance between
  neighbouring doubles at \<open>x\<close>, and \<open>rne\<close> rounds to the nearest integer, ties to even.
  Overflow is left out: every number rounded below is less than \<open>2 ^ 20\<close>. A double
  product or sum is the rounded exact product or sum.
\<close>

definition rne :: "real \<Rightarrow> int" where
  "rne q =
     (let f = \<lfloor>q\<rfloor>; r = q - of_int f
      in if r < 1 / 2 then f else if 1 / 2 < r then f + 1 else if even f then f else f + 1)"

definition binade :: "real \<Rightarrow> int" where
  "binade x = max \<lfloor>log 2 \<bar>x\<bar>\<rfloor> (- 1022)"

definition ulp :: "real \<Rightarrow> real" where
  "ulp x = 2 powr (of_int (binade x) - 52)"

definition round_double :: "real \<Rightarrow> real" where
  "round_double x = (if x = 0 then 0 else of_int (rne (x / ulp x)) * ulp x)"

definition is_double :: "real \<Rightarrow> bool" where
  "is_double x = (round_double x = x)"

text \<open>
  \<^verbatim>\<open>Math.floor(100000 + Math.random() * 900000).toString()\<close>, with the value of
  \<^verbatim>\<open>Math.random()\<close> as the argument: a double \<open>u\<close> with \<open>0 \<le> u < 1\<close>. The product
  and the sum are rounded as the double operations round them.
\<close>

definition sample_number :: "real \<Rightarrow> nat" where
  "sample_number u = nat \<lfloor>round_double (100000 + round_double (u * 900000))\<rfloor>"

definition sample_pin :: "real \<Rightarrow> pin" where
  "sample_pin u = toString (sample_number u)"

definition valid_sample :: "real \<Rightarrow> bool" where
  "valid_sample u = (0 \<le> u \<and> u < 1 \<and> is_double u)"

text \<open>
  The \<^verbatim>\<open>do ... while (rooms.has(pin))\<close> loop draws until the pin is free. The list is
  the sequence of values \<^verbatim>\<open>Math.random()\<close> would return; \<open>None\<close> means every draw
  of the list collided, that is, the loop has not returned within these draws.
\<close>

fun generateUniquePin :: "(pin \<times> room) list \<Rightarrow> real list \<Rightarrow> pin option" where
  "generateUniquePin rs [] = None"
| "generateUniquePin rs (u # us) =
     (let pin = sample_pin u
      in if has rs pin then generateUniquePin rs us else Some pin)"

definition create_room ::
  "state \<Rightarrow> socket_id \<Rightarrow> real option \<Rightarrow> string option \<Rightarrow> string \<Rightarrow> real list
     \<Rightarrow> (state \<times> emission list) option" where
  "create_room st sid maxP roomNumber nick us =
     (case generateUniquePin (rooms st) us of
        None \<Rightarrow> None
      | Some pin \<Rightarrow>
          let st1 = (case timers_of st sid pin of
                       None \<Rightarrow> st
                     | Some t \<Rightarrow>
                         upd_socket sid (\<lambda>s. s\<lparr>roomTimers := (roomTimers s)(pin := None)\<rparr>)
                           (clearTimeout t st));
              new = \<lparr>number = (case roomNumber of None \<Rightarrow> sin_numero
                                | Some s \<Rightarrow> or_default s sin_numero),
                     participants = [],
                     maxParticipants = (case maxP of None \<Rightarrow> 5
                                        | Some m \<Rightarrow> if m = 0 then 5 else m),
                     messages = []\<rparr>;
              st2 = st1\<lparr>rooms := AList.update pin new (rooms st1)\<rparr>;
              st3 = upd_socket sid
                      (\<lambda>s. s\<lparr>nickname := Some nick, joined := insert pin (joined s)\<rparr>) st2;
              room = new\<lparr>participants := AList.update sid nick (participants new)\<rparr>;
              st4 = st3\<lparr>rooms := AList.update pin room (rooms st3)\<rparr>;
              st5 = upd_socket sid (\<lambda>s. s\<lparr>currentRoom := Some pin\<rparr>) st4
          in Some (st5,
               [(ToSocket sid,
                   RoomCreated pin roomNumber (length (participants room)) (maxParticipants room)),
                (ToAll, AvailableRooms (getAvailableRooms (rooms st5)))]))"

definition join_room ::
  "state \<Rightarrow> socket_id \<Rightarrow> pin \<Rightarrow> string \<Rightarrow> state \<times> emission list" where
  "join_room st sid pin nick =
     (case map_of (rooms st) pin of
        None \<Rightarrow> (st, [(ToSocket sid, JoinError msg_no_existe)])
      | Some room \<Rightarrow>
          if real (length (participants room)) \<ge> maxParticipants room
          then (st, [(ToSocket sid, JoinError msg_llena)])
          else
            let st1 = (case timers_of st sid pin of
                         None \<Rightarrow> st
                       | Some t \<Rightarrow>
                           upd_socket sid (\<lambda>s. s\<lparr>roomTimers := (roomTimers s)(pin := None)\<rparr>)
                             (clearTimeout t st));
                st2 = upd_socket sid
                        (\<lambda>s. s\<lparr>nickname := Some nick, joined := insert pin (joined s)\<rparr>) st1;
                room' = room\<lparr>participants := AList.update sid nick (participants room)\<rparr>;
                st3 = st2\<lparr>rooms := AList.update pin room' (rooms st2)\<rparr>;
                st4 = upd_socket sid (\<lambda>s. s\<lparr>currentRoom := Some pin\<rparr>) st3;
                participantsList = map snd (participants room')
            in (st4,
                [(ToSocket sid, RoomHistory (messages room')),
                 (ToRoom pin, RoomParticipants participantsList),
                 (ToRoom pin, RoomParticipants participantsList),
                 (ToRoom pin,
                    UserJoined nick (or_default (number room') sin_numero)
                      (length (participants room')) (maxParticipants room')),
                 (ToAll, AvailableRooms (getAvailableRooms (rooms st4)))]))"

text \<open>
  \<^verbatim>\<open>pin && rooms.has(pin)\<close>: \<^verbatim>\<open>undefined\<close>, \<^verbatim>\<open>null\<close> (here \<open>None\<close>) and the empty
  string are falsy.
\<close>

definition send_message :: "state \<Rightarrow> socket_id \<Rightarrow> message \<Rightarrow> state \<times> emission list" where
  "send_message st sid msg =
     (case current_of st sid of
        None \<Rightarrow> (st, [])
      | Some pin \<Rightarrow>
          if pin = [] then (st, [])
          else
            (case map_of (rooms st) pin of
               None \<Rightarrow> (st, [])
             | Some r \<Rightarrow>
                 (st\<lparr>rooms := AList.update pin (r\<lparr>messages := messages r @ [msg]\<rparr>) (rooms st)\<rparr>,
                  [(ToRoom pin, ReceiveMessage msg)])))"

text \<open>The callback handed to \<^verbatim>\<open>setTimeout\<close> in \<^verbatim>\<open>leaveCurrentRoom\<close>.\<close>

definition on_timeout :: "state \<Rightarrow> timer \<Rightarrow> state \<times> emission list" where
  "on_timeout st tm =
     (case map_of (rooms st) (tpin tm) of
        None \<Rightarrow> (st, [])
      | Some r \<Rightarrow>
          if length (participants r) = 0
          then
            let st1 = st\<lparr>rooms := AList.delete (tpin tm) (rooms st)\<rparr>;
                st2 = upd_socket (owner tm)
                        (\<lambda>s. s\<lparr>roomTimers := (roomTimers s)(tpin tm := None)\<rparr>) st1
            in (st2, [(ToAll, AvailableRooms (getAvailableRooms (rooms st2)))])
          else (st, []))"

definition leaveCurrentRoom :: "state \<Rightarrow> socket_id \<Rightarrow> state \<times> emission list" where
  "leaveCurrentRoom st sid =
     (case current_of st sid of
        None \<Rightarrow> (st, [])
      | Some pin \<Rightarrow>
          if pin = [] then (st, [])
          else
            (case map_of (rooms st) pin of
               None \<Rightarrow> (st, [])
             | Some room0 \<Rightarrow>
                 let room = room0\<lparr>participants := AList.delete sid (participants room0)\<rparr>;
                     st1 = st\<lparr>rooms := AList.update pin room (rooms st)\<rparr>;
                     participantsList = map snd (participants room);
                     out1 = [(ToRoom pin,
                                UserLeft (nickname_of st sid) (or_default (number room) sin_numero)
                                  (length (participants room)) (maxParticipants room)),
                             (ToRoom pin, RoomParticipants participantsList)];
                     st2 = (if length (participants room) = 0
                            then
                              let st1a = (case timers_of st1 sid pin of
                                            None \<Rightarrow> st1
                                          | Some t \<Rightarrow> clearTimeout t st1);
                                  (timerId, st1b) =
                                     setTimeout \<lparr>owner = sid, tpin = pin, delay = 30000\<rparr> st1a
                              in upd_socket sid
                                   (\<lambda>s. s\<lparr>roomTimers := (roomTimers s)(pin \<mapsto> timerId)\<rparr>) st1b
                            else st1);
                     out2 = [(ToAll, AvailableRooms (getAvailableRooms (rooms st2)))];
                     st3 = upd_socket sid
                             (\<lambda>s. s\<lparr>joined := joined s - {pin}, currentRoom := None\<rparr>) st2
                 in (st3, out1 @ out2)))"

definition get_room_participants :: "state \<Rightarrow> socket_id \<Rightarrow> state \<times> emission list" where
  "get_room_participants st sid =
     (case current_of st sid of
        None \<Rightarrow> (st, [])
      | Some pin \<Rightarrow>
          if pin = [] then (st, [])
          else
            (case map_of (rooms st) pin of
               None \<Rightarrow> (st, [])
             | Some r \<Rightarrow> (st, [(ToSocket sid, RoomParticipants (map snd (participants r)))])))"

section \<open>The event loop\<close>

text \<open>
  Socket.IO gives every connection a fresh id, so a \<open>Connect\<close> with an id already seen
  does nothing. A client event reaches its handler only while the socket is connected.
  On a disconnect Socket.IO takes the socket out of its rooms before the
  \<^verbatim>\<open>disconnect\<close> handler runs. \<open>TimerFire t\<close> is the timer loop running the callback
  of the pending timer \<open>t\<close>; a cleared timer is not pending and never fires.
\<close>

definition is_online :: "state \<Rightarrow> socket_id \<Rightarrow> bool" where
  "is_online st sid = (case sockets st sid of None \<Rightarrow> False | Some s \<Rightarrow> online s)"

definition fire :: "state \<Rightarrow> timer_id \<Rightarrow> state \<times> emission list" where
  "fire st t =
     (case map_of (pending st) t of
        None \<Rightarrow> (st, [])
      | Some tm \<Rightarrow> on_timeout (st\<lparr>pending := AList.delete t (pending st)\<rparr>) tm)"

fun step :: "state \<Rightarrow> event \<Rightarrow> (state \<times> emission list) option" where
  "step st (Connect sid) =
     (case sockets st sid of
        Some s \<Rightarrow> Some (st, [])
      | None \<Rightarrow>
          Some (st\<lparr>sockets := (sockets st)(sid \<mapsto>
                       \<lparr>nickname = None, currentRoom = None, joined = {},
                        roomTimers = Map.empty, online = True\<rparr>)\<rparr>,
                [(ToSocket sid, HostInfo)]))"
| "step st (Disconnect sid) =
     (if is_online st sid
      then Some (leaveCurrentRoom
                   (upd_socket sid (\<lambda>s. s\<lparr>joined := {}, online := False\<rparr>) st) sid)
      else Some (st, []))"
| "step st (CreateRoom sid maxP roomNumber nick us) =
     (if is_online st sid then create_room st sid maxP roomNumber nick us else Some (st, []))"
| "step st (JoinRoom sid pin nick) =
     (if is_online st sid then Some (join_room st sid pin nick) else Some (st, []))"
| "step st (SendMessage sid msg) =
     (if is_online st sid then Some (send_message st sid msg) else Some (st, []))"
| "step st (LeaveRoom sid) =
     (if is_online st sid then Some (leaveCurrentRoom st sid) else Some (st, []))"
| "step st (GetAvailableRooms sid) =
     (if is_online st sid
      then Some (st, [(ToSocket sid, AvailableRooms (getAvailableRooms (rooms st)))])
      else Some (st, []))"
| "step st (GetRoomParticipants sid) =
     (if is_online st sid then Some (get_room_participants st sid) else Some (st, []))"
| "step st (TimerFire t) = Some (fire st t)"

fun run :: "state \<Rightarrow> event list \<Rightarrow> (state \<times> emission list) option" where
  "run st [] = Some (st, [])"
| "run st (e # es) =
     (case step st e of
        None \<Rightarrow> None
      | Some (st1, out1) \<Rightarrow>
          (case run st1 es of
             None \<Rightarrow> None
           | Some (st2, out2) \<Rightarrow> Some (st2, out1 @ out2)))"

section \<open>Observations on runs\<close>

text \<open>The room object as \<^verbatim>\<open>create_room\<close> leaves it in the registry.\<close>

definition new_room :: "real option \<Rightarrow> string option \<Rightarrow> socket_id \<Rightarrow> string \<Rightarrow> room" where
  "new_room maxP roomNumber sid nick =
     \<lparr>number = (case roomNumber of None \<Rightarrow> sin_numero | Some s \<Rightarrow> or_default s sin_numero),
      participants = [(sid, nick)],
      maxParticipants = (case maxP of None \<Rightarrow> 5 | Some m \<Rightarrow> if m = 0 then 5 else m),
      messages = []\<rparr>"

text \<open>The pins announced by \<^verbatim>\<open>room_created\<close>, in the order of emission.\<close>

fun created_pin :: "emission \<Rightarrow> pin list" where
  "created_pin (tg, RoomCreated p rn n m) = [p]"
| "created_pin (tg, other) = []"

definition created_pins :: "emission list \<Rightarrow> pin list" where
  "created_pins out = concat (map created_pin out)"

text \<open>The \<^verbatim>\<open>receive_message\<close> broadcasts to the Socket.IO room \<open>p\<close>, in order.\<close>

fun received_one :: "pin \<Rightarrow> emission \<Rightarrow> message list" where
  "received_one p (ToRoom q, ReceiveMessage m) = (if q = p then [m] else [])"
| "received_one p other = []"

definition received :: "pin \<Rightarrow> emission list \<Rightarrow> message list" where
  "received p out = concat (map (received_one p) out)"

text \<open>
  The messages sent to room \<open>p\<close> along a run: the \<^verbatim>\<open>send_message\<close> events of
  connected sockets whose \<^verbatim>\<open>currentRoom\<close> is \<open>p\<close> at the moment of sending.
\<close>

fun sent_by :: "pin \<Rightarrow> state \<Rightarrow> event \<Rightarrow> message list" where
  "sent_by p st (SendMessage sid m) =
     (if is_online st sid \<and> current_of st sid = Some p then [m] else [])"
| "sent_by p st other = []"

fun sent_to :: "pin \<Rightarrow> state \<Rightarrow> event list \<Rightarrow> message list" where
  "sent_to p st [] = []"
| "sent_to p st (e # es) =
     (case step st e of
        None \<Rightarrow> []
      | Some (st1, out1) \<Rightarrow> sent_by p st e @ sent_to p st1 es)"

text \<open>Room \<open>p\<close> is in the registry in every state of the run.\<close>

fun alive_through :: "pin \<Rightarrow> state \<Rightarrow> event list \<Rightarrow> bool" where
  "alive_through p st [] = has (rooms st) p"
| "alive_through p st (e # es) =
     (has (rooms st) p \<and>
      (case step st e of
         None \<Rightarrow> False
       | Some (st1, out1) \<Rightarrow> alive_through p st1 es))"

fun is_fire :: "event \<Rightarrow> bool" where
  "is_fire (TimerFire t) = True"
| "is_fire other = False"

text \<open>The pending deletion timers whose callback is about pin \<open>p\<close>.\<close>

definition live_timers :: "state \<Rightarrow> pin \<Rightarrow> timer_id list" where
  "live_timers st p = map fst (filter (\<lambda>(t, tm). tpin tm = p) (pending st))"

definition is_digit :: "char \<Rightarrow> bool" where
  "is_digit c = (c \<in> set ''0123456789'')"

definition over_capacity :: "room \<Rightarrow> bool" where
  "over_capacity r = (maxParticipants r < real (length (participants r)))"

text \<open>The state and the emissions after a run from the empty server.\<close>

definition state_after :: "event list \<Rightarrow> state" where
  "state_after evs = (case run init_state evs of None \<Rightarrow> init_state | Some (st, out) \<Rightarrow> st)"

definition output_after :: "event list \<Rightarrow> emission list" where
  "output_after evs = (case run init_state evs of None \<Rightarrow> [] | Some (st, out) \<Rightarrow> out)"

text \<open>
  A room for two: \<open>a\<close> creates it with label 7 (the draw \<open>1/2\<close> gives pin 550000),
  \<open>b\<close> joins it, \<open>c\<close> is connected. The same with room for a third participant.
\<close>

definition room_of_two :: "event list" where
  "room_of_two =
     [Connect ''a'', Connect ''b'', Connect ''c'',
      CreateRoom ''a'' (Some 2) (Some ''7'') ''alice'' [1 / 2],
      JoinRoom ''b'' ''550000'' ''bob'']"

definition room_of_three :: "event list" where
  "room_of_three =
     [Connect ''a'', Connect ''b'', Connect ''c'',
      CreateRoom ''a'' (Some 3) (Some ''7'') ''alice'' [1 / 2],
      JoinRoom ''b'' ''550000'' ''bob'']"

definition state_from :: "state \<Rightarrow> event list \<Rightarrow> state" where
  "state_from st evs = (case run st evs of None \<Rightarrow> st | Some (st1, out) \<Rightarrow> st1)"

definition output_from :: "state \<Rightarrow> event list \<Rightarrow> emission list" where
  "output_from st evs = (case run st evs of None \<Rightarrow> [] | Some (st1, out) \<Rightarrow> out)"

text \<open>
  Requests with a limit that is negative, not whole, or above 10, as a client other than
  the React form can send.
\<close>

definition negative_room :: "event list" where
  "negative_room = [Connect ''a'', CreateRoom ''a'' (Some (- 1)) None ''alice'' [1 / 2]]"

definition fractional_room :: "event list" where
  "fractional_room =
     [Connect ''a'', Connect ''b'', Connect ''c'',
      CreateRoom ''a'' (Some (5 / 2)) (Some ''7'') ''alice'' [1 / 2],
      JoinRoom ''b'' ''550000'' ''bob'', JoinRoom ''c'' ''550000'' ''carol'']"

definition room_of_hundred :: "event list" where
  "room_of_hundred =
     [Connect ''a'', Connect ''b'', CreateRoom ''a'' (Some 100) (Some ''7'') ''alice'' [1 / 2]]"

definition come_and_go :: "event list" where
  "come_and_go = [JoinRoom ''b'' ''550000'' ''bob'', LeaveRoom ''a'', LeaveRoom ''b'']"

text \<open>A room for three, created by \<open>a\<close>, and a conversation in it.\<close>

definition created_for_three :: "event list" where
  "created_for_three =
     [Connect ''a'', Connect ''b'', Connect ''c'',
      CreateRoom ''a'' (Some 3) (Some ''7'') ''alice'' [1 / 2]]"

definition msg1 :: message where
  "msg1 = \<lparr>msg_id = Some ''1'', author = ''alice'', content = ''hola''\<rparr>"

definition msg2 :: message where
  "msg2 = \<lparr>msg_id = Some ''2'', author = ''bob'', content = ''buenas''\<rparr>"

definition msg3 :: message where
  "msg3 = \<lparr>msg_id = None, author = ''alice'', content = ''adios''\<rparr>"

definition stray :: message where
  "stray = \<lparr>msg_id = Some ''9'', author = ''carol'', content = ''nadie''\<rparr>"

definition conversation :: "event list" where
  "conversation =
     [SendMessage ''a'' msg1, JoinRoom ''b'' ''550000'' ''bob'', SendMessage ''b'' msg2,
      SendMessage ''c'' stray, SendMessage ''a'' msg3]"

text \<open>
  \<open>a\<close> creates a room and leaves it, which arms the deletion timer in the
  \<^verbatim>\<open>roomTimers\<close> of \<open>a\<close>; then another connection, \<open>b\<close>, joins the room.
\<close>

definition handover :: "event list" where
  "handover =
     [Connect ''a'', Connect ''b'',
      CreateRoom ''a'' (Some 2) (Some ''7'') ''alice'' [1 / 2],
      LeaveRoom ''a'', JoinRoom ''b'' ''550000'' ''bob'']"

text \<open>Three rooms; the second and third requests first draw pins that are taken.\<close>

definition three_rooms :: "event list" where
  "three_rooms =
     room_of_two @
     [CreateRoom ''c'' None None ''carol'' [1 / 2, 3 / 4],
      CreateRoom ''b'' (Some 4) (Some ''9'') ''bob'' [3 / 4, 1 / 2, 1 / 4]]"

section \<open>Basic facts about the handlers\<close>

lemma upd_socket_proj [simp]:
  "rooms (upd_socket sid f st) = rooms st"
  "pending (upd_socket sid f st) = pending st"
  "nextTimer (upd_socket sid f st) = nextTimer st"
  by (simp_all add: upd_socket_def split: option.split)

lemma clearTimeout_proj [simp]:
  "rooms (clearTimeout t st) = rooms st"
  "sockets (clearTimeout t st) = sockets st"
  "pending (clearTimeout t st) = AList.delete t (pending st)"
  "nextTimer (clearTimeout t st) = nextTimer st"
  by (simp_all add: clearTimeout_def)

lemma current_of_upd_socket:
  "(\<And>s. currentRoom (f s) = currentRoom s) \<Longrightarrow> current_of (upd_socket sid f st) x = current_of st x"
  by (simp add: current_of_def upd_socket_def split: option.split)

lemma current_of_clearTimeout [simp]: "current_of (clearTimeout t st) = current_of st"
  by (simp add: current_of_def fun_eq_iff)

lemma join_room_rooms:
  "map_of (rooms (fst (join_room st sid p nick))) =
     (case map_of (rooms st) p of
        None \<Rightarrow> map_of (rooms st)
      | Some r \<Rightarrow>
          if maxParticipants r \<le> real (length (participants r)) then map_of (rooms st)
          else (map_of (rooms st))(p \<mapsto> r\<lparr>participants := AList.update sid nick (participants r)\<rparr>))"
  by (simp add: join_room_def Let_def update_conv' split: option.split)

lemma send_message_rooms:
  "map_of (rooms (fst (send_message st sid msg))) =
     (case current_of st sid of
        None \<Rightarrow> map_of (rooms st)
      | Some p \<Rightarrow>
          (case map_of (rooms st) p of
             None \<Rightarrow> map_of (rooms st)
           | Some r \<Rightarrow>
               if p = [] then map_of (rooms st)
               else (map_of (rooms st))(p \<mapsto> r\<lparr>messages := messages r @ [msg]\<rparr>)))"
  by (simp add: send_message_def update_conv' split: option.split)

lemma leaveCurrentRoom_rooms:
  "map_of (rooms (fst (leaveCurrentRoom st sid))) =
     (case current_of st sid of
        None \<Rightarrow> map_of (rooms st)
      | Some p \<Rightarrow>
          (case map_of (rooms st) p of
             None \<Rightarrow> map_of (rooms st)
           | Some r \<Rightarrow>
               if p = [] then map_of (rooms st)
               else (map_of (rooms st))(p \<mapsto> r\<lparr>participants := AList.delete sid (participants r)\<rparr>)))"
  by (simp add: leaveCurrentRoom_def Let_def setTimeout_def update_conv' split: option.split prod.split)

lemma fire_rooms:
  "map_of (rooms (fst (fire st t))) =
     (case map_of (pending st) t of
        None \<Rightarrow> map_of (rooms st)
      | Some tm \<Rightarrow>
          (case map_of (rooms st) (tpin tm) of
             None \<Rightarrow> map_of (rooms st)
           | Some r \<Rightarrow>
               if participants r = [] then (map_of (rooms st))(tpin tm := None)
               else map_of (rooms st)))"
  by (simp add: fire_def on_timeout_def Let_def delete_conv' split: option.split)

lemma get_room_participants_state [simp]: "fst (get_room_participants st sid) = st"
  by (simp add: get_room_participants_def split: option.split)

lemma generateUniquePin_free: "generateUniquePin rs us = Some p \<Longrightarrow> \<not> has rs p"
  by (induction us) (auto simp: Let_def split: if_splits)

lemma create_room_rooms:
  assumes "create_room st sid maxP roomNumber nick us = Some (st', out)"
  shows "\<exists>p. generateUniquePin (rooms st) us = Some p \<and>
             map_of (rooms st') = (map_of (rooms st))(p \<mapsto> new_room maxP roomNumber sid nick) \<and>
             rooms st' = AList.update p (new_room maxP roomNumber sid nick) (rooms st) \<and>
             out = [(ToSocket sid, RoomCreated p roomNumber 1
                       (case maxP of None \<Rightarrow> 5 | Some m \<Rightarrow> if m = 0 then 5 else m)),
                    (ToAll, AvailableRooms (getAvailableRooms (rooms st')))]"
  using assms
  by (auto simp: create_room_def Let_def update_conv' new_room_def split: option.splits)

lemma current_of_offline [simp]:
  "current_of (upd_socket sid (\<lambda>s. s\<lparr>joined := {}, online := False\<rparr>) st) = current_of st"
  by (rule ext) (simp add: current_of_def upd_socket_def split: option.split)

lemma step_rooms:
  assumes "step st e = Some (st', out)"
  shows "map_of (rooms st') =
     (case e of
        Connect sid \<Rightarrow> map_of (rooms st)
      | Disconnect sid \<Rightarrow>
          if is_online st sid then map_of (rooms (fst (leaveCurrentRoom st sid)))
          else map_of (rooms st)
      | CreateRoom sid maxP rn nick us \<Rightarrow>
          if is_online st sid
          then (case generateUniquePin (rooms st) us of
                  None \<Rightarrow> map_of (rooms st)
                | Some p \<Rightarrow> (map_of (rooms st))(p \<mapsto> new_room maxP rn sid nick))
          else map_of (rooms st)
      | JoinRoom sid p nick \<Rightarrow>
          if is_online st sid then map_of (rooms (fst (join_room st sid p nick)))
          else map_of (rooms st)
      | SendMessage sid m \<Rightarrow>
          if is_online st sid then map_of (rooms (fst (send_message st sid m)))
          else map_of (rooms st)
      | LeaveRoom sid \<Rightarrow>
          if is_online st sid then map_of (rooms (fst (leaveCurrentRoom st sid)))
          else map_of (rooms st)
      | GetAvailableRooms sid \<Rightarrow> map_of (rooms st)
      | GetRoomParticipants sid \<Rightarrow> map_of (rooms st)
      | TimerFire t \<Rightarrow> map_of (rooms (fst (fire st t))))"
proof (cases e)
  case (Connect sid)
  with assms show ?thesis by (auto split: option.splits)
next
  case (Disconnect sid)
  show ?thesis
  proof (cases "is_online st sid")
    case True
    with assms Disconnect have
      "st' = fst (leaveCurrentRoom (upd_socket sid (\<lambda>s. s\<lparr>joined := {}, online := False\<rparr>) st) sid)"
      by simp
    with True Disconnect show ?thesis
      by (simp add: leaveCurrentRoom_rooms split: option.split)
  next
    case False
    with assms Disconnect show ?thesis by simp
  qed
next
  case (CreateRoom sid maxP rn nick us)
  with assms show ?thesis
    by (auto dest: create_room_rooms split: if_splits)
next
  case (TimerFire t)
  with assms show ?thesis by auto
qed (use assms in \<open>auto simp: get_room_participants_def split: if_splits option.splits\<close>)

lemma has_map_of: "has rs p = (map_of rs p \<noteq> None)"
  by (simp add: has_def)


lemma join_room_origin:
  assumes "map_of (rooms (fst (join_room st sid q nick))) p = Some r'"
  shows "\<exists>r. map_of (rooms st) p = Some r \<and>
           (r' = r \<or>
            p = q \<and> r' = r\<lparr>participants := AList.update sid nick (participants r)\<rparr> \<and>
              real (length (participants r)) < maxParticipants r)"
  using assms by (auto simp: join_room_rooms split: option.splits if_splits)

lemma send_message_origin:
  assumes "map_of (rooms (fst (send_message st sid m))) p = Some r'"
  shows "\<exists>r. map_of (rooms st) p = Some r \<and>
           (r' = r \<and> (current_of st sid = Some p \<longrightarrow> p = []) \<or>
            current_of st sid = Some p \<and> p \<noteq> [] \<and> r' = r\<lparr>messages := messages r @ [m]\<rparr>)"
  using assms by (auto simp: send_message_rooms split: option.splits if_splits)

lemma leaveCurrentRoom_origin:
  assumes "map_of (rooms (fst (leaveCurrentRoom st sid))) p = Some r'"
  shows "\<exists>r. map_of (rooms st) p = Some r \<and>
           (r' = r \<or> r' = r\<lparr>participants := AList.delete sid (participants r)\<rparr>)"
  using assms by (auto simp: leaveCurrentRoom_rooms split: option.splits if_splits)

lemma fire_origin:
  assumes "map_of (rooms (fst (fire st t))) p = Some r'"
  shows "map_of (rooms st) p = Some r'"
  using assms by (auto simp: fire_rooms split: option.splits if_splits)

lemma step_origin:
  assumes "step st e = Some (st', out)" and "map_of (rooms st') p = Some r'"
  shows "(map_of (rooms st) p = None \<and>
            (\<exists>sid maxP rn nick us. e = CreateRoom sid maxP rn nick us \<and>
               generateUniquePin (rooms st) us = Some p \<and> r' = new_room maxP rn sid nick)) \<or>
         (\<exists>r. map_of (rooms st) p = Some r \<and>
            maxParticipants r' = maxParticipants r \<and> number r' = number r \<and>
            (participants r' = participants r \<or>
             (\<exists>sid nick. participants r' = AList.update sid nick (participants r) \<and>
                 real (length (participants r)) < maxParticipants r) \<or>
             (\<exists>sid. participants r' = AList.delete sid (participants r))))"
proof -
  note rs = step_rooms [OF assms(1)]
  show ?thesis
  proof (cases e)
    case (CreateRoom sid maxP rn nick us)
    with rs assms(2) show ?thesis
      by (auto simp: has_map_of dest!: generateUniquePin_free split: if_splits option.splits)
  next
    case (JoinRoom sid q nick)
    with rs assms(2) show ?thesis
      by (auto dest!: join_room_origin split: if_splits; blast)
  next
    case (SendMessage sid m)
    with rs assms(2) show ?thesis
      by (auto dest!: send_message_origin split: if_splits; blast)
  next
    case (LeaveRoom sid)
    with rs assms(2) show ?thesis
      by (auto dest!: leaveCurrentRoom_origin split: if_splits; blast)
  next
    case (Disconnect sid)
    with rs assms(2) show ?thesis
      by (auto dest!: leaveCurrentRoom_origin split: if_splits; blast)
  next
    case (TimerFire t)
    with rs assms(2) show ?thesis
      by (auto dest!: fire_origin)
  qed (use rs assms(2) in auto)
qed

lemma step_capacity:
  assumes "step st e = Some (st', out)"
    and inv: "\<And>p r. map_of (rooms st) p = Some r \<Longrightarrow> 0 < maxParticipants r
                \<Longrightarrow> real (length (participants r)) < maxParticipants r + 1"
    and "map_of (rooms st') p = Some r'" and "0 < maxParticipants r'"
  shows "real (length (participants r')) < maxParticipants r' + 1"
proof -
  have del: "\<And>k (al :: (socket_id \<times> string) list). length (AList.delete k al) \<le> length al"
    by (simp add: length_delete_le)
  have upd: "\<And>k v (al :: (socket_id \<times> string) list). length (AList.update k v al) \<le> Suc (length al)"
  proof -
    fix k v and al :: "(socket_id \<times> string) list"
    show "length (AList.update k v al) \<le> Suc (length al)"
      by (induction al) auto
  qed
  from step_origin [OF assms(1,3)] show ?thesis
  proof (elim disjE conjE exE)
    fix sid maxP rn nick us
    assume "r' = new_room maxP rn sid nick"
    with assms(4) show ?thesis by (simp add: new_room_def)
  next
    fix r
    assume r: "map_of (rooms st) p = Some r" "maxParticipants r' = maxParticipants r"
      and "participants r' = participants r"
    with inv [OF r(1)] assms(4) show ?thesis by simp
  next
    fix r sid nick
    assume r: "map_of (rooms st) p = Some r" "maxParticipants r' = maxParticipants r"
      and u: "participants r' = AList.update sid nick (participants r)"
      and lt: "real (length (participants r)) < maxParticipants r"
    from upd [of sid nick "participants r"]
    have "real (length (AList.update sid nick (participants r))) \<le> real (length (participants r)) + 1"
      by linarith
    with r(2) u lt show ?thesis by simp
  next
    fix r sid
    assume r: "map_of (rooms st) p = Some r" "maxParticipants r' = maxParticipants r"
      and d: "participants r' = AList.delete sid (participants r)"
    from del [of sid "participants r"]
    have "real (length (AList.delete sid (participants r))) \<le> real (length (participants r))"
      by linarith
    with inv [OF r(1)] assms(4) r(2) d show ?thesis by simp
  qed
qed

lemma run_capacity:
  assumes "run st evs = Some (st', out)"
    and "\<And>p r. map_of (rooms st) p = Some r \<Longrightarrow> 0 < maxParticipants r
                \<Longrightarrow> real (length (participants r)) < maxParticipants r + 1"
    and "map_of (rooms st') p = Some r'" and "0 < maxParticipants r'"
  shows "real (length (participants r')) < maxParticipants r' + 1"
  using assms
proof (induction evs arbitrary: st out)
  case Nil
  then show ?case by simp
next
  case (Cons e es)
  from Cons.prems(1) obtain st1 out1 out2 where
    s: "step st e = Some (st1, out1)" and r: "run st1 es = Some (st', out2)"
    by (auto split: option.splits)
  show ?case
    by (rule Cons.IH [OF r _ Cons.prems(3,4)]) (rule step_capacity [OF s Cons.prems(2)])
qed

lemma whole_limit:
  assumes "m \<in> \<int>" and "real n < m + 1"
  shows "real n \<le> m"
proof -
  from assms(1) obtain k :: int where k: "m = of_int k" by (auto elim: Ints_cases)
  from assms(2) have "real_of_int (int n) < real_of_int (k + 1)" by (simp add: k)
  then have "int n < k + 1" by (simp only: of_int_less_iff)
  then have "int n \<le> k" by simp
  then have "real_of_int (int n) \<le> real_of_int k" by (simp only: of_int_le_iff)
  then show ?thesis by (simp add: k)
qed

lemma step_fixed_fields:
  assumes "step st e = Some (st', out)"
    and "map_of (rooms st) p = Some r" and "map_of (rooms st') p = Some r'"
  shows "maxParticipants r' = maxParticipants r \<and> number r' = number r"
  using step_origin [OF assms(1,3)] assms(2) by auto

lemma join_room_not_found:
  "map_of (rooms st) p = None \<Longrightarrow>
     join_room st sid p nick = (st, [(ToSocket sid, JoinError msg_no_existe)])"
  by (simp add: join_room_def)

lemma join_room_full:
  "map_of (rooms st) p = Some r \<Longrightarrow> maxParticipants r \<le> real (length (participants r)) \<Longrightarrow>
     join_room st sid p nick = (st, [(ToSocket sid, JoinError msg_llena)])"
  by (simp add: join_room_def)

lemma msgs_differ: "msg_no_existe \<noteq> msg_llena"
  by (simp add: msg_no_existe_def msg_llena_def)

lemma join_room_success:
  assumes "map_of (rooms st) p = Some r" "real (length (participants r)) < maxParticipants r"
  shows "snd (join_room st sid p nick) =
      [(ToSocket sid, RoomHistory (messages r)),
       (ToRoom p, RoomParticipants (map snd (AList.update sid nick (participants r)))),
       (ToRoom p, RoomParticipants (map snd (AList.update sid nick (participants r)))),
       (ToRoom p, UserJoined nick (or_default (number r) sin_numero)
                    (length (AList.update sid nick (participants r))) (maxParticipants r)),
       (ToAll, AvailableRooms (getAvailableRooms (rooms (fst (join_room st sid p nick)))))]"
  using assms by (simp add: join_room_def Let_def)

lemma update_member_keys:
  "map_of al k = Some v \<Longrightarrow> map fst (AList.update k w al) = map fst al"
  by (induction al) (auto split: if_splits)

lemma update_member_length:
  "map_of al k = Some v \<Longrightarrow> length (AList.update k w al) = length al"
  by (induction al) (auto split: if_splits)

lemma run_fixed_fields:
  assumes "run st evs = Some (st', out)" and "alive_through p st evs"
    and "map_of (rooms st) p = Some r"
  shows "\<exists>r'. map_of (rooms st') p = Some r' \<and> maxParticipants r' = maxParticipants r
           \<and> number r' = number r"
  using assms
proof (induction evs arbitrary: st out r)
  case Nil
  then show ?case by simp
next
  case (Cons e es)
  from Cons.prems(1) obtain st1 out1 out2 where
    s: "step st e = Some (st1, out1)" and r: "run st1 es = Some (st', out2)"
    by (auto split: option.splits)
  from Cons.prems(2) s have a: "alive_through p st1 es" by simp
  then have "has (rooms st1) p" by (cases es) simp_all
  then obtain r1 where r1: "map_of (rooms st1) p = Some r1"
    by (auto simp: has_map_of)
  from step_fixed_fields [OF s Cons.prems(3) r1] Cons.IH [OF r a r1]
  show ?case by auto
qed

lemma toString_nonempty: "toString n \<noteq> []"
  by (subst toString.simps) simp

lemma generateUniquePin_sample:
  "generateUniquePin rs us = Some p \<Longrightarrow> \<exists>u\<in>set us. p = sample_pin u"
  by (induction us) (auto simp: Let_def split: if_splits)

lemma received_append [simp]: "received p (xs @ ys) = received p xs @ received p ys"
  by (simp add: received_def)

lemma received_Nil [simp]: "received p [] = []"
  by (simp add: received_def)

lemma received_join_room [simp]: "received p (snd (join_room st sid q nick)) = []"
  by (simp add: join_room_def received_def Let_def split: option.split)

lemma received_leaveCurrentRoom [simp]: "received p (snd (leaveCurrentRoom st sid)) = []"
  by (simp add: leaveCurrentRoom_def received_def Let_def split: option.split prod.split)

lemma received_fire [simp]: "received p (snd (fire st t)) = []"
  by (simp add: fire_def on_timeout_def received_def Let_def split: option.split)

lemma received_get_room_participants [simp]:
  "received p (snd (get_room_participants st sid)) = []"
  by (simp add: get_room_participants_def received_def split: option.split)

lemma received_send_message:
  "map_of (rooms st) p = Some r \<Longrightarrow> p \<noteq> [] \<Longrightarrow>
     received p (snd (send_message st sid m)) = (if current_of st sid = Some p then [m] else [])"
  by (simp add: send_message_def received_def split: option.split)

lemma step_received:
  assumes "step st e = Some (st', out)" and "map_of (rooms st) p = Some r" and "p \<noteq> []"
  shows "received p out = sent_by p st e"
proof (cases e)
  case (Connect sid)
  with assms(1) show ?thesis by (auto simp: received_def split: option.splits)
next
  case (Disconnect sid)
  with assms(1) show ?thesis
    by (auto split: if_splits dest!: arg_cong [where f = snd])
next
  case (CreateRoom sid maxP rn nick us)
  with assms(1) show ?thesis
    by (auto simp: received_def dest!: create_room_rooms split: if_splits)
next
  case (JoinRoom sid q nick)
  with assms(1) show ?thesis
    by (auto split: if_splits dest!: arg_cong [where f = snd])
next
  case (SendMessage sid m)
  with assms show ?thesis
    by (auto simp: received_send_message split: if_splits dest!: arg_cong [where f = snd])
next
  case (LeaveRoom sid)
  with assms(1) show ?thesis
    by (auto split: if_splits dest!: arg_cong [where f = snd])
next
  case (GetAvailableRooms sid)
  with assms(1) show ?thesis by (auto simp: received_def split: if_splits)
next
  case (GetRoomParticipants sid)
  with assms(1) show ?thesis
    by (auto split: if_splits dest!: arg_cong [where f = snd])
next
  case (TimerFire t)
  with assms(1) show ?thesis by (auto dest!: arg_cong [where f = snd])
qed

lemma step_log:
  assumes "step st e = Some (st', out)"
    and "map_of (rooms st) p = Some r" and "map_of (rooms st') p = Some r'" and "p \<noteq> []"
  shows "messages r' = messages r @ sent_by p st e"
proof -
  note rs = step_rooms [OF assms(1)]
  show ?thesis
  proof (cases e)
    case (Disconnect sid)
    with rs assms(2,3) show ?thesis
      by (auto dest!: leaveCurrentRoom_origin split: if_splits)
  next
    case (CreateRoom sid maxP rn nick us)
    with rs assms(2,3) show ?thesis
      by (auto simp: has_map_of dest!: generateUniquePin_free split: if_splits option.splits)
  next
    case (JoinRoom sid q nick)
    with rs assms(2,3) show ?thesis
      by (auto dest!: join_room_origin split: if_splits)
  next
    case (SendMessage sid m)
    with rs assms(2,3,4) show ?thesis
      by (auto dest!: send_message_origin split: if_splits)
  next
    case (LeaveRoom sid)
    with rs assms(2,3) show ?thesis
      by (auto dest!: leaveCurrentRoom_origin split: if_splits)
  next
    case (TimerFire t)
    with rs assms(2,3) show ?thesis by (auto dest!: fire_origin)
  qed (use rs assms(2,3) in auto)
qed

lemma step_messages:
  assumes "step st e = Some (st', out)"
    and "map_of (rooms st) p = Some r" and "map_of (rooms st') p = Some r'" and "p \<noteq> []"
  shows "messages r' = messages r @ sent_by p st e \<and> received p out = sent_by p st e"
  using step_log [OF assms] step_received [OF assms(1,2,4)] by simp

lemma alive_through_has: "alive_through p st evs \<Longrightarrow> has (rooms st) p"
  by (cases evs) simp_all

lemma run_messages:
  assumes "run st evs = Some (st', out)" and "alive_through p st evs"
    and "map_of (rooms st) p = Some r" and "p \<noteq> []"
  shows "\<exists>r'. map_of (rooms st') p = Some r' \<and> messages r' = messages r @ sent_to p st evs
           \<and> received p out = sent_to p st evs"
  using assms(1,2,3)
proof (induction evs arbitrary: st out r)
  case Nil
  then show ?case by simp
next
  case (Cons e es)
  from Cons.prems(1) obtain st1 out1 out2 where
    s: "step st e = Some (st1, out1)" and r: "run st1 es = Some (st', out2)"
    and o: "out = out1 @ out2"
    by (auto split: option.splits)
  from Cons.prems(2) s have a: "alive_through p st1 es" by simp
  then obtain r1 where r1: "map_of (rooms st1) p = Some r1"
    by (auto dest!: alive_through_has simp: has_map_of)
  from step_messages [OF s Cons.prems(3) r1 assms(4)] Cons.IH [OF r a r1] s o
  show ?case by auto
qed

lemma run_pins_nonempty:
  assumes "run st evs = Some (st', out)"
    and "\<And>p r. map_of (rooms st) p = Some r \<Longrightarrow> p \<noteq> []"
    and "map_of (rooms st') p = Some r'"
  shows "p \<noteq> []"
  using assms
proof (induction evs arbitrary: st out)
  case Nil
  then show ?case by auto
next
  case (Cons e es)
  from Cons.prems(1) obtain st1 out1 out2 where
    s: "step st e = Some (st1, out1)" and r: "run st1 es = Some (st', out2)"
    by (auto split: option.splits)
  have "\<And>q r1. map_of (rooms st1) q = Some r1 \<Longrightarrow> q \<noteq> []"
  proof -
    fix q r1
    assume q: "map_of (rooms st1) q = Some r1"
    from step_origin [OF s q] show "q \<noteq> []"
    proof
      assume "map_of (rooms st) q = None \<and>
        (\<exists>sid maxP rn nick us. e = CreateRoom sid maxP rn nick us \<and>
            generateUniquePin (rooms st) us = Some q \<and> r1 = new_room maxP rn sid nick)"
      then show ?thesis
        by (auto dest!: generateUniquePin_sample simp: sample_pin_def sample_number_def toString_nonempty)
    next
      assume "\<exists>r. map_of (rooms st) q = Some r \<and>
            maxParticipants r1 = maxParticipants r \<and> number r1 = number r \<and>
            (participants r1 = participants r \<or>
             (\<exists>sid nick. participants r1 = AList.update sid nick (participants r) \<and>
                 real (length (participants r)) < maxParticipants r) \<or>
             (\<exists>sid. participants r1 = AList.delete sid (participants r)))"
      with Cons.prems(2) show ?thesis by blast
    qed
  qed
  from Cons.IH [OF r this Cons.prems(3)] show ?case .
qed

lemma send_message_dropped:
  "current_of st sid = None \<or> (\<exists>p. current_of st sid = Some p \<and> map_of (rooms st) p = None)
     \<Longrightarrow> send_message st sid msg = (st, [])"
  by (auto simp: send_message_def)

lemma send_message_relayed:
  "current_of st sid = Some p \<Longrightarrow> map_of (rooms st) p = Some r \<Longrightarrow> p \<noteq> [] \<Longrightarrow>
     send_message st sid msg =
       (st\<lparr>rooms := AList.update p (r\<lparr>messages := messages r @ [msg]\<rparr>) (rooms st)\<rparr>,
        [(ToRoom p, ReceiveMessage msg)])"
  by (simp add: send_message_def)

lemma is_digit_digit: "is_digit (digit d)"
proof -
  have "d mod 10 < length ''0123456789''" by simp
  then have "''0123456789'' ! (d mod 10) \<in> set ''0123456789''" by (rule nth_mem)
  then show ?thesis by (simp only: is_digit_def digit_def)
qed

lemma toString_digits: "list_all is_digit (toString n)"
proof (induction n rule: toString.induct)
  case (1 n)
  then show ?case
    by (subst toString.simps) (simp add: is_digit_digit)
qed

lemma digit_nonzero: "0 < d \<Longrightarrow> d < 10 \<Longrightarrow> digit d \<noteq> CHR ''0''"
proof -
  assume "0 < d" "d < 10"
  then have "d \<in> {1, 2, 3, 4, 5, 6, 7, 8, 9}" by auto
  then show ?thesis by (auto simp: digit_def)
qed

lemma toString_hd: "0 < n \<Longrightarrow> hd (toString n) \<noteq> CHR ''0''"
proof (induction n rule: toString.induct)
  case (1 n)
  show ?case
  proof (cases "n < 10")
    case True
    with "1.prems" show ?thesis
      by (subst toString.simps) (simp add: digit_nonzero)
  next
    case False
    then have "0 < n div 10" by simp
    with "1.IH" False have "hd (toString (n div 10)) \<noteq> CHR ''0''" by simp
    with False show ?thesis
      by (subst toString.simps) (simp add: toString_nonempty)
  qed
qed

lemma toString_length: "10 ^ k \<le> n \<Longrightarrow> n < 10 ^ Suc k \<Longrightarrow> length (toString n) = Suc k"
proof (induction k arbitrary: n)
  case 0
  then show ?case by (subst toString.simps) simp
next
  case (Suc k)
  define a :: nat where "a = 10 ^ k"
  have pos: "0 < a" by (simp add: a_def)
  from Suc.prems have b: "10 * a \<le> n" "n < 10 * (10 * a)"
    by (simp_all add: a_def)
  from b pos have ge: "10 \<le> n" by arith
  from b have "a \<le> n div 10" "n div 10 < 10 * a" by arith+
  then have "10 ^ k \<le> n div 10" "n div 10 < 10 ^ Suc k"
    by (simp_all add: a_def)
  from Suc.IH [OF this] ge show ?case
    by (subst toString.simps) simp
qed

section \<open>Double arithmetic and the draw of a pin\<close>

lemma rne_ge: "of_int n \<le> q \<Longrightarrow> n \<le> rne q"
proof -
  assume "of_int n \<le> q"
  then have "n \<le> \<lfloor>q\<rfloor>" by (simp add: le_floor_iff)
  moreover have "\<lfloor>q\<rfloor> \<le> rne q" by (simp add: rne_def Let_def)
  ultimately show ?thesis by simp
qed

lemma rne_le_half: "q < of_int n + 1 / 2 \<Longrightarrow> rne q \<le> n"
proof -
  assume a: "q < of_int n + 1 / 2"
  then have "\<lfloor>q\<rfloor> \<le> n" by (simp add: floor_le_iff)
  then consider "\<lfloor>q\<rfloor> = n" | "\<lfloor>q\<rfloor> + 1 \<le> n" by linarith
  then show ?thesis
  proof cases
    case 1
    with a have "q - of_int \<lfloor>q\<rfloor> < 1 / 2" by simp
    with 1 show ?thesis by (simp add: rne_def Let_def)
  next
    case 2
    have "rne q \<le> \<lfloor>q\<rfloor> + 1" by (simp add: rne_def Let_def)
    with 2 show ?thesis by simp
  qed
qed

lemma rne_le: "q \<le> of_int n \<Longrightarrow> rne q \<le> n"
  by (rule rne_le_half) simp

lemma ulp_pos: "0 < ulp x"
  by (simp add: ulp_def)

lemma round_double_ge:
  assumes "a = of_int m * ulp x" and "a \<le> x"
  shows "a \<le> round_double x"
proof (cases "x = 0")
  case True
  with assms show ?thesis by (simp add: round_double_def)
next
  case False
  from assms ulp_pos [of x] have "of_int m \<le> x / ulp x"
    by (simp add: pos_le_divide_eq)
  then have "m \<le> rne (x / ulp x)" by (rule rne_ge)
  then have "of_int m * ulp x \<le> of_int (rne (x / ulp x)) * ulp x"
    using ulp_pos [of x] by simp
  with False assms(1) show ?thesis by (simp add: round_double_def)
qed

lemma round_double_le:
  assumes "a = of_int m * ulp x" and "x \<le> a"
  shows "round_double x \<le> a"
proof (cases "x = 0")
  case True
  with assms show ?thesis by (simp add: round_double_def)
next
  case False
  from assms ulp_pos [of x] have "x / ulp x \<le> of_int m"
    by (simp add: pos_divide_le_eq)
  then have "rne (x / ulp x) \<le> m" by (rule rne_le)
  then have "of_int (rne (x / ulp x)) * ulp x \<le> of_int m * ulp x"
    using ulp_pos [of x] by simp
  with False assms(1) show ?thesis by (simp add: round_double_def)
qed

lemma binade_le:
  assumes "x \<noteq> 0" and "\<bar>x\<bar> < 2 powr (of_int E + 1)" and "- 1022 \<le> E"
  shows "binade x \<le> E"
proof -
  from assms(1,2) have "log 2 \<bar>x\<bar> < of_int E + 1" by (simp add: log_less_iff)
  then have "\<lfloor>log 2 \<bar>x\<bar>\<rfloor> < E + 1"
    using floor_less_iff [of "log 2 \<bar>x\<bar>" "E + 1"] by simp
  with assms(3) show ?thesis by (simp add: binade_def)
qed

lemma binade_ge: "x \<noteq> 0 \<Longrightarrow> 2 powr (of_int E) \<le> \<bar>x\<bar> \<Longrightarrow> E \<le> binade x"
proof -
  assume "x \<noteq> 0" "2 powr (of_int E) \<le> \<bar>x\<bar>"
  then have "of_int E \<le> log 2 \<bar>x\<bar>" by (simp add: le_log_iff)
  then have "E \<le> \<lfloor>log 2 \<bar>x\<bar>\<rfloor>" by (simp add: le_floor_iff)
  then show ?thesis by (simp add: binade_def)
qed

text \<open>A multiple of \<open>2 ^ i\<close> is a multiple of the unit in the last place of \<open>x\<close> when
  \<open>i\<close> is not below the exponent of that unit.\<close>

lemma multiple_of_ulp:
  assumes "binade x - 52 \<le> i"
  shows "\<exists>m. of_int k * 2 powr (of_int i) = of_int m * ulp x"
proof -
  define d where "d = nat (i - (binade x - 52))"
  from assms have d: "of_int i = of_int (binade x) - 52 + real d"
    by (simp add: d_def)
  have "of_int k * 2 powr (of_int i) = of_int k * (2 powr real d * ulp x)"
    by (simp add: d ulp_def powr_add)
  also have "\<dots> = of_int (k * 2 ^ d) * ulp x"
    by (simp add: powr_realpow)
  finally show ?thesis by blast
qed

lemma round_double_exact:
  assumes "x = of_int m * ulp x"
  shows "round_double x = x"
proof -
  from round_double_ge [OF assms] round_double_le [OF assms] show ?thesis by simp
qed

lemma is_double_dyadic:
  assumes "\<bar>k\<bar> < 2 ^ 53" and "j \<le> 1074"
  shows "is_double (of_int k / 2 ^ j)"
proof (cases "k = 0")
  case True
  then show ?thesis by (simp add: is_double_def round_double_def)
next
  case False
  define x :: real where "x = of_int k / 2 ^ j"
  have x0: "x \<noteq> 0" using False by (simp add: x_def)
  have xp: "x = of_int k * 2 powr (of_int (- int j))"
    by (simp add: x_def powr_minus_divide powr_realpow)
  from assms(1) have "\<bar>real_of_int k\<bar> < 2 ^ 53"
    by (metis of_int_abs of_int_less_numeral_power_cancel_iff)
  then have "\<bar>x\<bar> < 2 ^ 53 / 2 ^ j"
    by (simp add: x_def divide_strict_right_mono)
  also have "\<dots> = 2 powr (of_int (52 - int j) + 1)"
    by (simp add: powr_diff powr_realpow [symmetric] algebra_simps)
  finally have "\<bar>x\<bar> < 2 powr (of_int (52 - int j) + 1)" .
  from binade_le [OF x0 this] assms(2) have "binade x - 52 \<le> - int j" by simp
  from multiple_of_ulp [OF this, of k] obtain m where "x = of_int m * ulp x"
    using xp by auto
  then have "round_double x = x" by (rule round_double_exact)
  then show ?thesis by (simp add: is_double_def x_def)
qed


lemma round_double_int:
  assumes "\<bar>k\<bar> < 2 ^ 53"
  shows "round_double (of_int k) = of_int k"
  using is_double_dyadic [OF assms, of 0] by (simp add: is_double_def)

lemma round_double_numeral [simp]:
  "(numeral n :: int) < 9007199254740992 \<Longrightarrow> round_double (numeral n) = numeral n"
  using round_double_int [of "numeral n"] by simp

lemma is_double_half: "is_double (1 / 2)"
  using is_double_dyadic [of 1 1] by simp

lemma is_double_quarters: "is_double (1 / 4)" "is_double (3 / 4)"
  using is_double_dyadic [of 1 2] is_double_dyadic [of 3 2] by simp_all

text \<open>A double below 1 is at most \<open>1 - 1 / 2 ^ 53\<close>.\<close>

lemma double_below_one:
  assumes "is_double u" and "0 \<le> u" and "u < 1"
  shows "u \<le> 1 - 1 / 2 ^ 53"
proof (cases "u < 1 / 2")
  case True
  then show ?thesis by simp
next
  case False
  then have u: "1 / 2 \<le> u" "u \<noteq> 0" "\<bar>u\<bar> = u" by simp_all
  have "binade u \<le> - 1"
    by (rule binade_le) (use u assms(3) in simp_all)
  moreover have "- 1 \<le> binade u"
    by (rule binade_ge) (use u in \<open>simp_all add: powr_minus\<close>)
  ultimately have "binade u = - 1" by simp
  then have ulp: "ulp u = 1 / 2 ^ 53"
    by (simp add: ulp_def powr_minus_divide)
  from assms(1) u(2) have "u = of_int (rne (u / ulp u)) * ulp u"
    by (simp add: is_double_def round_double_def)
  then obtain m :: int where m: "u = real_of_int m / 2 ^ 53"
    using ulp by auto
  from m assms(3) have "real_of_int m < 9007199254740992" by simp
  then have "m < 9007199254740992" by simp
  then have "m \<le> 9007199254740991" by simp
  then have "real_of_int m \<le> 9007199254740991" by simp
  then show ?thesis by (simp add: m)
qed

lemma sample_eval: "sample_number (1 / 2) = 550000" "sample_number (3 / 4) = 775000"
  "sample_number (1 / 4) = 325000"
  by (simp_all add: sample_number_def)

text \<open>Rounding a number below \<open>2 ^ 20\<close> stays between two multiples of \<open>1 / 2 ^ 33\<close>
  that enclose it.\<close>

lemma round_double_between:
  assumes "\<bar>x\<bar> < 2 ^ 20"
    and "real_of_int k / 2 ^ 33 \<le> x" and "x \<le> real_of_int l / 2 ^ 33"
  shows "real_of_int k / 2 ^ 33 \<le> round_double x \<and> round_double x \<le> real_of_int l / 2 ^ 33"
proof (cases "x = 0")
  case True
  with assms(2,3) show ?thesis by (simp add: round_double_def)
next
  case False
  have "(2::real) powr (of_int 19 + 1) = 2 ^ 20" by simp
  with assms(1) have "\<bar>x\<bar> < 2 powr (of_int 19 + 1)" by simp
  from binade_le [OF False this] have b: "binade x - 52 \<le> - 33" by simp
  have p: "\<And>j. real_of_int j / 2 ^ 33 = of_int j * 2 powr (of_int (- 33))"
    by (simp add: powr_minus_divide)
  from multiple_of_ulp [OF b, of k] obtain m where m: "real_of_int k / 2 ^ 33 = of_int m * ulp x"
    unfolding p by blast
  from multiple_of_ulp [OF b, of l] obtain n where n: "real_of_int l / 2 ^ 33 = of_int n * ulp x"
    unfolding p by blast
  from round_double_ge [OF m assms(2)] round_double_le [OF n assms(3)] show ?thesis by simp
qed

lemma product_bounds:
  assumes "valid_sample u"
  shows "0 \<le> round_double (u * 900000) \<and> round_double (u * 900000) \<le> 900000 - 1 / 2 ^ 33"
proof -
  define x where "x = u * 900000"
  from assms have v: "is_double u" "0 \<le> u" "u < 1"
    by (simp_all add: valid_sample_def)
  from v(2) double_below_one [OF v] have u: "0 \<le> u" "u \<le> 1 - 1 / 2 ^ 53"
    by simp_all
  then have x: "0 \<le> x" "x \<le> 900000 - 900000 / 2 ^ 53"
    by (simp_all add: x_def)
  have lo: "0 \<le> round_double x"
    using round_double_ge [of 0 0 x] x(1) by simp
  have hi: "round_double x \<le> 900000 - 1 / 2 ^ 33"
  proof (cases "x < 524288")
    case True
    with x(1) have "\<bar>x\<bar> < 2 ^ 20" by simp
    from round_double_between [OF this, of 0 "524288 * 2 ^ 33"] x(1) True
    have "round_double x \<le> 524288" by simp
    then show ?thesis by simp
  next
    case False
    then have x0: "x \<noteq> 0" "\<bar>x\<bar> = x" by simp_all
    have "binade x \<le> 19"
      by (rule binade_le) (use x0 x(2) in simp_all)
    moreover have "19 \<le> binade x"
      by (rule binade_ge) (use x0 False in simp_all)
    ultimately have "binade x = 19" by simp
    then have ulp: "ulp x = 1 / 2 ^ 33"
      by (simp add: ulp_def powr_minus_divide)
    from x(2) have "x * 2 ^ 33 < real_of_int (900000 * 2 ^ 33 - 1) + 1 / 2"
      by simp
    then have "rne (x * 2 ^ 33) \<le> 900000 * 2 ^ 33 - 1" by (rule rne_le_half)
    then have "real_of_int (rne (x * 2 ^ 33)) \<le> real_of_int (900000 * 2 ^ 33 - 1)"
      by (simp only: of_int_le_iff)
    then have le: "real_of_int (rne (x * 2 ^ 33)) / 2 ^ 33 \<le> 900000 - 1 / 2 ^ 33"
      by (simp add: field_simps)
    have "x / ulp x = x * 2 ^ 33" by (simp add: ulp)
    with x0 have "round_double x = real_of_int (rne (x * 2 ^ 33)) / 2 ^ 33"
      by (simp only: round_double_def ulp if_False) simp
    with le show ?thesis by (simp only:)
  qed
  from lo hi show ?thesis by (simp add: x_def)
qed

lemma sample_number_range:
  assumes "valid_sample u"
  shows "100000 \<le> sample_number u \<and> sample_number u \<le> 999999"
proof -
  define s where "s = 100000 + round_double (u * 900000)"
  from product_bounds [OF assms] have s: "100000 \<le> s" "s \<le> 1000000 - 1 / 2 ^ 33"
    by (simp_all add: s_def)
  then have "\<bar>s\<bar> < 2 ^ 20" by simp
  from round_double_between [OF this, of "100000 * 2 ^ 33" "1000000 * 2 ^ 33 - 1"] s
  have "100000 \<le> round_double s" "round_double s \<le> 1000000 - 1 / 2 ^ 33"
    by (simp_all add: field_simps)
  then have "100000 \<le> round_double s" "round_double s < 1000000" by simp_all
  then have "100000 \<le> \<lfloor>round_double s\<rfloor>" "\<lfloor>round_double s\<rfloor> < 1000000"
    by (simp_all add: le_floor_iff floor_less_iff)
  then show ?thesis unfolding sample_number_def s_def by linarith
qed

lemma sample_number_onto:
  assumes "100000 \<le> n" and "n \<le> 999999"
  shows "\<exists>u. valid_sample u \<and> sample_number u = n"
proof -
  define m :: real where "m = real n - 100000"
  define y :: real where "y = (m + 1 / 4) / 900000 * 2 ^ 53"
  define k :: int where "k = \<lceil>y\<rceil>"
  define u :: real where "u = real_of_int k / 2 ^ 53"
  from assms have m: "0 \<le> m" "m \<le> 899999" by (simp_all add: m_def)
  have y: "0 < y" "y \<le> 2 ^ 53 - 1"
    using m by (simp_all add: y_def field_simps)
  have k: "y \<le> real_of_int k" "real_of_int k < y + 1"
    using ceiling_correct [of y] by (simp_all add: k_def)
  from k y have kr: "0 < real_of_int k" "real_of_int k < 9007199254740992" by simp_all
  then have ki: "0 < k" "k < 9007199254740992" by simp_all
  then have "\<bar>k\<bar> < 2 ^ 53" by simp
  then have d: "is_double u"
    unfolding u_def by (rule is_double_dyadic) simp
  from kr have u: "0 \<le> u" "u < 1" by (simp_all add: u_def)
  define x where "x = u * 900000"
  have xk: "x = real_of_int k * 900000 / 2 ^ 53" by (simp add: x_def u_def)
  have "m + 1 / 4 = y * 900000 / 2 ^ 53" by (simp add: y_def)
  with k(1) have x1: "m + 1 / 4 \<le> x" by (simp add: xk field_simps)
  have "(y + 1) * 900000 / 2 ^ 53 \<le> m + 1 / 2" by (simp add: y_def field_simps)
  with k(2) have x2: "x \<le> m + 1 / 2" by (simp add: xk field_simps)
  have mi: "m = real_of_int (int n - 100000)" by (simp add: m_def)
  have a1: "m + 1 / 4 = real_of_int ((int n - 100000) * 2 ^ 33 + 2 ^ 31) / 2 ^ 33"
    by (simp add: mi field_simps)
  have a2: "m + 1 / 2 = real_of_int ((int n - 100000) * 2 ^ 33 + 2 ^ 32) / 2 ^ 33"
    by (simp add: mi field_simps)
  from x1 x2 m have "\<bar>x\<bar> < 2 ^ 20" by simp
  from round_double_between [OF this, of "(int n - 100000) * 2 ^ 33 + 2 ^ 31"
      "(int n - 100000) * 2 ^ 33 + 2 ^ 32"] x1 x2
  have p: "m + 1 / 4 \<le> round_double x" "round_double x \<le> m + 1 / 2"
    unfolding a1 [symmetric] a2 [symmetric] by simp_all
  define s where "s = 100000 + round_double x"
  from p have s: "real n + 1 / 4 \<le> s" "s \<le> real n + 1 / 2" by (simp_all add: s_def m_def)
  have b1: "real n + 1 / 4 = real_of_int (int n * 2 ^ 33 + 2 ^ 31) / 2 ^ 33"
    by (simp add: field_simps)
  have b2: "real n + 1 / 2 = real_of_int (int n * 2 ^ 33 + 2 ^ 32) / 2 ^ 33"
    by (simp add: field_simps)
  from s assms have "\<bar>s\<bar> < 2 ^ 20" by simp
  from round_double_between [OF this, of "int n * 2 ^ 33 + 2 ^ 31" "int n * 2 ^ 33 + 2 ^ 32"] s
  have r: "real n + 1 / 4 \<le> round_double s" "round_double s \<le> real n + 1 / 2"
    unfolding b1 [symmetric] b2 [symmetric] by simp_all
  then have "\<lfloor>round_double s\<rfloor> = int n"
    by (simp add: floor_eq_iff)
  then have "sample_number u = n" by (simp add: sample_number_def s_def x_def)
  with u d show ?thesis by (auto simp: valid_sample_def)
qed


lemma round_double_in_binade:
  assumes "2 ^ e \<le> x" and "x < 2 ^ Suc e" and "e \<le> 52"
  shows "round_double x = real_of_int (rne (x * 2 ^ (52 - e))) / 2 ^ (52 - e)"
proof -
  have "(0::real) < 2 ^ e" by simp
  with assms(1) have "0 < x" by linarith
  then have x0: "x \<noteq> 0" "\<bar>x\<bar> = x" by simp_all
  have "binade x \<le> int e"
    by (rule binade_le) (use x0 assms(2) in \<open>simp_all add: powr_realpow powr_add\<close>)
  moreover have "int e \<le> binade x"
    by (rule binade_ge) (use x0 assms(1) in \<open>simp_all add: powr_realpow\<close>)
  ultimately have "binade x = int e" by simp
  with assms(3) have "ulp x = 2 powr (- real (52 - e))"
    by (simp add: ulp_def of_nat_diff)
  then have ulp: "ulp x = 1 / 2 ^ (52 - e)"
    by (simp add: powr_minus_divide powr_realpow)
  with x0 show ?thesis by (simp add: round_double_def)
qed

text \<open>
  A draw at which the rounding of the sum decides the pin: the exact sum lies just below
  100030, the double sum is 100030.
\<close>

lemma sample_number_rounds_up: "sample_number (150119987579 / 2 ^ 52) = 100030"
proof -
  have a: "150119987579 / 2 ^ 52 * 900000 = (4222124650659375 / 140737488355328 :: real)"
    by simp
  have p: "round_double (4222124650659375 / 140737488355328)
             = 4222124650659375 / 140737488355328"
    using round_double_in_binade [of 4 "4222124650659375 / 140737488355328"]
    by (simp add: rne_def Let_def)
  have b: "100000 + 4222124650659375 / 140737488355328
             = (14077970960183459375 / 140737488355328 :: real)"
    by simp
  have q: "round_double (14077970960183459375 / 140737488355328) = 100030"
    using round_double_in_binade [of 16 "14077970960183459375 / 140737488355328"]
    by (simp add: rne_def Let_def)
  show ?thesis unfolding sample_number_def a p b q by simp
qed

lemma sample_pin_shape:
  assumes "valid_sample u"
  shows "length (sample_pin u) = 6 \<and> list_all is_digit (sample_pin u) \<and>
         hd (sample_pin u) \<noteq> CHR ''0''"
proof -
  from sample_number_range [OF assms]
  have r: "10 ^ 5 \<le> sample_number u" "sample_number u < 10 ^ Suc 5"
    by simp_all
  from toString_length [OF r] r(1) show ?thesis
    by (simp add: sample_pin_def toString_digits toString_hd)
qed

lemma generateUniquePin_dropWhile:
  "generateUniquePin rs us =
     (case dropWhile (\<lambda>u. has rs (sample_pin u)) us of
        [] \<Rightarrow> None
      | u # rest \<Rightarrow> Some (sample_pin u))"
  by (induction us) (simp_all add: Let_def)

lemma generateUniquePin_shape:
  assumes "list_all valid_sample us" and "generateUniquePin rs us = Some p"
  shows "length p = 6 \<and> list_all is_digit p \<and> hd p \<noteq> CHR ''0''"
proof -
  from generateUniquePin_sample [OF assms(2)] obtain u where "u \<in> set us" "p = sample_pin u"
    by blast
  with assms(1) sample_pin_shape [of u] show ?thesis
    by (simp add: list_all_iff)
qed

lemma created_pins_append [simp]: "created_pins (xs @ ys) = created_pins xs @ created_pins ys"
  by (simp add: created_pins_def)

lemma created_pins_Nil [simp]: "created_pins [] = []"
  by (simp add: created_pins_def)

lemma created_pins_join_room [simp]: "created_pins (snd (join_room st sid q nick)) = []"
  by (simp add: join_room_def created_pins_def Let_def split: option.split)

lemma created_pins_leaveCurrentRoom [simp]: "created_pins (snd (leaveCurrentRoom st sid)) = []"
  by (simp add: leaveCurrentRoom_def created_pins_def Let_def split: option.split prod.split)

lemma created_pins_send_message [simp]: "created_pins (snd (send_message st sid m)) = []"
  by (simp add: send_message_def created_pins_def split: option.split)

lemma created_pins_get_room_participants [simp]:
  "created_pins (snd (get_room_participants st sid)) = []"
  by (simp add: get_room_participants_def created_pins_def split: option.split)

lemma created_pins_create_room:
  assumes "create_room st sid maxP rn nick us = Some (st1, out1)"
  shows "\<exists>p. created_pins out1 = [p] \<and> generateUniquePin (rooms st) us = Some p \<and>
             map_of (rooms st) p = None \<and>
             map_of (rooms st1) = (map_of (rooms st))(p \<mapsto> new_room maxP rn sid nick)"
proof -
  from create_room_rooms [OF assms] obtain p where
    p: "generateUniquePin (rooms st) us = Some p"
       "map_of (rooms st1) = (map_of (rooms st))(p \<mapsto> new_room maxP rn sid nick)"
       "out1 = [(ToSocket sid, RoomCreated p rn 1
                   (case maxP of None \<Rightarrow> 5 | Some m \<Rightarrow> if m = 0 then 5 else m)),
                (ToAll, AvailableRooms (getAvailableRooms (rooms st1)))]"
    by blast
  from generateUniquePin_free [OF p(1)] have "map_of (rooms st) p = None"
    by (simp add: has_map_of)
  with p show ?thesis by (simp add: created_pins_def)
qed

lemma pair_eqD: "h = (a, b) \<Longrightarrow> fst h = a \<and> snd h = b"
  by auto

lemma join_room_keeps:
  "map_of (rooms st) q = Some r \<Longrightarrow> \<exists>r'. map_of (rooms (fst (join_room st sid p nick))) q = Some r'"
  by (simp add: join_room_rooms split: option.split)

lemma send_message_keeps:
  "map_of (rooms st) q = Some r \<Longrightarrow> \<exists>r'. map_of (rooms (fst (send_message st sid m))) q = Some r'"
  by (simp add: send_message_rooms split: option.split)

lemma leaveCurrentRoom_keeps:
  "map_of (rooms st) q = Some r \<Longrightarrow> \<exists>r'. map_of (rooms (fst (leaveCurrentRoom st sid))) q = Some r'"
  by (simp add: leaveCurrentRoom_rooms split: option.split)

lemma step_keeps_rooms:
  assumes "step st e = Some (st1, out1)" and "\<not> is_fire e" and "map_of (rooms st) q \<noteq> None"
  shows "map_of (rooms st1) q \<noteq> None"
proof -
  note rs = step_rooms [OF assms(1)]
  from assms(3) obtain r where r: "map_of (rooms st) q = Some r" by auto
  show ?thesis
  proof (cases e)
    case (Disconnect sid)
    with rs r leaveCurrentRoom_keeps [OF r, of sid] show ?thesis by auto
  next
    case (CreateRoom sid maxP rn nick us)
    with rs r show ?thesis by (auto split: option.split)
  next
    case (JoinRoom sid p nick)
    with rs r join_room_keeps [OF r, of sid p nick] show ?thesis by auto
  next
    case (SendMessage sid m)
    with rs r send_message_keeps [OF r, of sid m] show ?thesis by auto
  next
    case (LeaveRoom sid)
    with rs r leaveCurrentRoom_keeps [OF r, of sid] show ?thesis by auto
  next
    case (TimerFire t)
    with assms(2) show ?thesis by simp
  qed (use rs r in simp_all)
qed

lemma step_created_pins:
  assumes "step st e = Some (st1, out1)"
  shows "created_pins out1 = [] \<or>
         (\<exists>p. created_pins out1 = [p] \<and> map_of (rooms st) p = None \<and>
              map_of (rooms st1) p \<noteq> None)"
proof (cases e)
  case (Connect sid)
  with assms show ?thesis by (auto simp: created_pins_def split: option.splits)
next
  case (Disconnect sid)
  with assms show ?thesis by (auto split: if_splits dest!: pair_eqD)
next
  case (CreateRoom sid maxP rn nick us)
  show ?thesis
  proof (cases "is_online st sid")
    case True
    with assms CreateRoom have "create_room st sid maxP rn nick us = Some (st1, out1)" by simp
    from created_pins_create_room [OF this] show ?thesis by auto
  next
    case False
    with assms CreateRoom show ?thesis by simp
  qed
next
  case (JoinRoom sid q nick)
  with assms show ?thesis by (auto split: if_splits dest!: pair_eqD)
next
  case (SendMessage sid m)
  with assms show ?thesis by (auto split: if_splits dest!: pair_eqD)
next
  case (LeaveRoom sid)
  with assms show ?thesis by (auto split: if_splits dest!: pair_eqD)
next
  case (GetAvailableRooms sid)
  with assms show ?thesis by (auto simp: created_pins_def split: if_splits)
next
  case (GetRoomParticipants sid)
  with assms show ?thesis by (auto split: if_splits dest!: pair_eqD)
next
  case (TimerFire t)
  with assms show ?thesis
    by (auto simp: fire_def on_timeout_def created_pins_def Let_def split: option.splits if_splits)
qed

lemma step_created:
  assumes "step st e = Some (st1, out1)" and "\<not> is_fire e"
  shows "(created_pins out1 = [] \<or>
          (\<exists>p. created_pins out1 = [p] \<and> map_of (rooms st) p = None \<and>
                map_of (rooms st1) p \<noteq> None)) \<and>
         (\<forall>q. map_of (rooms st) q \<noteq> None \<longrightarrow> map_of (rooms st1) q \<noteq> None)"
  using step_created_pins [OF assms(1)] step_keeps_rooms [OF assms] by simp

lemma run_created:
  assumes "run st evs = Some (st2, out2)" and "list_all (\<lambda>e. \<not> is_fire e) evs"
  shows "distinct (created_pins out2) \<and>
         (\<forall>p\<in>set (created_pins out2). map_of (rooms st) p = None \<and> map_of (rooms st2) p \<noteq> None) \<and>
         (\<forall>q. map_of (rooms st) q \<noteq> None \<longrightarrow> map_of (rooms st2) q \<noteq> None)"
  using assms
proof (induction evs arbitrary: st out2)
  case Nil
  then show ?case by simp
next
  case (Cons e es)
  from Cons.prems(1) obtain st1 out1 out3 where
    s: "step st e = Some (st1, out1)" and r: "run st1 es = Some (st2, out3)"
    and o: "out2 = out1 @ out3"
    by (auto split: option.splits)
  from Cons.prems(2) have nf: "\<not> is_fire e" "list_all (\<lambda>e. \<not> is_fire e) es" by simp_all
  note a = step_created [OF s nf(1)]
  note b = Cons.IH [OF r nf(2)]
  from a have mono1: "\<forall>q. map_of (rooms st) q \<noteq> None \<longrightarrow> map_of (rooms st1) q \<noteq> None"
    by simp
  from b have d3: "distinct (created_pins out3)" by simp
  from b have n3: "\<forall>p\<in>set (created_pins out3).
               map_of (rooms st1) p = None \<and> map_of (rooms st2) p \<noteq> None"
    by simp
  from b have mono2: "\<forall>q. map_of (rooms st1) q \<noteq> None \<longrightarrow> map_of (rooms st2) q \<noteq> None"
    by simp
  have A: "\<forall>p\<in>set (created_pins out3). map_of (rooms st) p = None \<and> map_of (rooms st2) p \<noteq> None"
    using n3 mono1 by (metis option.distinct(1))
  have C: "\<forall>q. map_of (rooms st) q \<noteq> None \<longrightarrow> map_of (rooms st2) q \<noteq> None"
    using mono1 mono2 by simp
  from a consider "created_pins out1 = []"
    | p where "created_pins out1 = [p]" "map_of (rooms st) p = None"
        "map_of (rooms st1) p \<noteq> None"
    by auto
  then show ?case
  proof cases
    case 1
    with d3 A C show ?thesis by (simp add: o)
  next
    case 2
    from n3 2(3) have "p \<notin> set (created_pins out3)" by auto
    moreover from mono2 2(3) have "map_of (rooms st2) p \<noteq> None" by simp
    ultimately show ?thesis using d3 A C 2 by (simp add: o)
  qed
qed

section \<open>The deletion timer\<close>

text \<open>
  What \<^verbatim>\<open>leaveCurrentRoom\<close>, the timer callback and \<^verbatim>\<open>join_room\<close> do with the
  timers of the connection they run for.
\<close>

lemma leave_arms_timer:
  assumes "current_of st sid = Some p" and "p \<noteq> []" and "map_of (rooms st) p = Some r"
    and "AList.delete sid (participants r) = []"
  shows "pending (fst (leaveCurrentRoom st sid)) =
           (case timers_of st sid p of
              None \<Rightarrow> pending st
            | Some t \<Rightarrow> AList.delete t (pending st))
           @ [(nextTimer st, \<lparr>owner = sid, tpin = p, delay = 30000\<rparr>)]"
  using assms
  by (simp add: leaveCurrentRoom_def Let_def setTimeout_def timers_of_def clearTimeout_def
        split: option.split)

lemma fire_removes_empty_room:
  assumes "map_of (pending st) t = Some tm" and "map_of (rooms st) (tpin tm) = Some r"
    and "participants r = []"
  shows "map_of (rooms (fst (fire st t))) (tpin tm) = None"
  using assms by (simp add: fire_rooms)

lemma fire_keeps_occupied_room:
  assumes "map_of (pending st) t = Some tm" and "map_of (rooms st) (tpin tm) = Some r"
    and "participants r \<noteq> []"
  shows "fire st t = (st\<lparr>pending := AList.delete t (pending st)\<rparr>, [])"
  using assms by (simp add: fire_def on_timeout_def)

lemma own_join_cancels:
  assumes "map_of (rooms st) p = Some r"
    and "real (length (participants r)) < maxParticipants r"
    and "timers_of st sid p = Some t"
  shows "pending (fst (join_room st sid p nick)) = AList.delete t (pending st)"
  using assms by (simp add: join_room_def Let_def)

lemma other_join_keeps_timer:
  assumes "map_of (rooms st) p = Some r"
    and "real (length (participants r)) < maxParticipants r"
    and "timers_of st sid p = None"
  shows "pending (fst (join_room st sid p nick)) = pending st"
  using assms by (simp add: join_room_def Let_def)

section \<open>Evaluating runs\<close>

lemmas eval_defs =
  state_after_def output_after_def state_from_def output_from_def init_state_def create_room_def join_room_def
  leaveCurrentRoom_def send_message_def get_room_participants_def upd_socket_def
  timers_of_def current_of_def nickname_of_def clearTimeout_def setTimeout_def is_online_def
  sample_pin_def sample_number_def toString.simps digit_def has_def Let_def getAvailableRooms_def
  or_default_def fire_def on_timeout_def sin_numero_def

lemma room_of_two_run:
  "run init_state room_of_two = Some (state_after room_of_two, output_after room_of_two)"
  by (simp add: room_of_two_def eval_defs)

lemma room_of_two_rooms:
  "rooms (state_after room_of_two) =
     [(''550000'', \<lparr>number = ''7'', participants = [(''a'', ''alice''), (''b'', ''bob'')],
                    maxParticipants = 2, messages = []\<rparr>)]"
  by (simp add: room_of_two_def eval_defs)

lemma room_of_three_run:
  "run init_state room_of_three = Some (state_after room_of_three, output_after room_of_three)"
  by (simp add: room_of_three_def eval_defs)

lemma room_of_three_rooms:
  "rooms (state_after room_of_three) =
     [(''550000'', \<lparr>number = ''7'', participants = [(''a'', ''alice''), (''b'', ''bob'')],
                    maxParticipants = 3, messages = []\<rparr>)]"
  by (simp add: room_of_three_def eval_defs)

section \<open>The claims\<close>

text \<open>
  C6. A \<^verbatim>\<open>join_room\<close> with a pin that is not in the registry answers the requesting
  socket alone with the room-not-found \<^verbatim>\<open>join_error\<close> and returns the state as it
  was: no room, participant, message, timer or \<^verbatim>\<open>currentRoom\<close> changes. The same
  holds for the room-full error, and the two error messages differ.
\<close>

theorem join_errors_leave_state:
  "(map_of (rooms st) p = None \<longrightarrow>
      join_room st sid p nick = (st, [(ToSocket sid, JoinError msg_no_existe)])) \<and>
   (map_of (rooms st) p = Some r \<and> maxParticipants r \<le> real (length (participants r)) \<longrightarrow>
      join_room st sid p nick = (st, [(ToSocket sid, JoinError msg_llena)])) \<and>
   msg_no_existe \<noteq> msg_llena"
  by (simp add: join_room_not_found join_room_full msgs_differ)

theorem join_errors_leave_state_witness:
  "join_room (state_after room_of_two) ''c'' ''123456'' ''carol''
     = (state_after room_of_two, [(ToSocket ''c'', JoinError msg_no_existe)]) \<and>
   join_room (state_after room_of_two) ''c'' ''550000'' ''carol''
     = (state_after room_of_two, [(ToSocket ''c'', JoinError msg_llena)])"
  using join_errors_leave_state [where st = "state_after room_of_two" and p = "''123456''"
          and sid = "''c''" and nick = "''carol''"]
        join_errors_leave_state [where st = "state_after room_of_two" and p = "''550000''"
          and sid = "''c''" and nick = "''carol''"
          and r = "the (map_of (rooms (state_after room_of_two)) ''550000'')"]
  by (simp add: room_of_two_rooms)

text \<open>
  C10. A socket that is already a participant of room \<open>p\<close> and joins it again while the
  room is below capacity succeeds: its entry keeps its place and gets the new nickname,
  the number of participants does not change, and the history, the participant list
  (emitted twice by the code), \<^verbatim>\<open>user_joined\<close> and \<^verbatim>\<open>available_rooms\<close> are sent.
  At capacity the same request is refused with the room-full error.
\<close>

theorem rejoin_member:
  assumes "map_of (rooms st) p = Some r" and "map_of (participants r) sid = Some old"
  shows "(real (length (participants r)) < maxParticipants r \<longrightarrow>
            map_of (rooms (fst (join_room st sid p nick))) p
              = Some (r\<lparr>participants := AList.update sid nick (participants r)\<rparr>) \<and>
            length (AList.update sid nick (participants r)) = length (participants r) \<and>
            map fst (AList.update sid nick (participants r)) = map fst (participants r) \<and>
            map_of (AList.update sid nick (participants r)) sid = Some nick \<and>
            snd (join_room st sid p nick) =
              [(ToSocket sid, RoomHistory (messages r)),
               (ToRoom p, RoomParticipants (map snd (AList.update sid nick (participants r)))),
               (ToRoom p, RoomParticipants (map snd (AList.update sid nick (participants r)))),
               (ToRoom p, UserJoined nick (or_default (number r) sin_numero)
                            (length (participants r)) (maxParticipants r)),
               (ToAll, AvailableRooms (getAvailableRooms (rooms (fst (join_room st sid p nick)))))]) \<and>
         (maxParticipants r \<le> real (length (participants r)) \<longrightarrow>
            join_room st sid p nick = (st, [(ToSocket sid, JoinError msg_llena)]))"
  using assms
  by (simp add: join_room_rooms join_room_success join_room_full update_member_length
        update_member_keys update_conv')

theorem rejoin_member_witness:
  "map_of (rooms (fst (join_room (state_after room_of_three) ''b'' ''550000'' ''bobby''))) ''550000''
     = Some \<lparr>number = ''7'', participants = [(''a'', ''alice''), (''b'', ''bobby'')],
             maxParticipants = 3, messages = []\<rparr> \<and>
   join_room (state_after room_of_two) ''b'' ''550000'' ''bobby''
     = (state_after room_of_two, [(ToSocket ''b'', JoinError msg_llena)])"
  using rejoin_member [where st = "state_after room_of_three" and p = "''550000''"
          and sid = "''b''" and old = "''bob''" and nick = "''bobby''"
          and r = "the (map_of (rooms (state_after room_of_three)) ''550000'')"]
        rejoin_member [where st = "state_after room_of_two" and p = "''550000''"
          and sid = "''b''" and old = "''bob''" and nick = "''bobby''"
          and r = "the (map_of (rooms (state_after room_of_two)) ''550000'')"]
  by (simp add: room_of_two_rooms room_of_three_rooms)

text \<open>
  C1, as stated, fails: \<^verbatim>\<open>create_room\<close> stores whatever limit the request carries
  (\<^verbatim>\<open>maxParticipants || 5\<close>) and then adds the creator, so a request with the limit
  \<open>-1\<close> leaves a room of one participant with \<open>maxParticipants = -1\<close>; and a room
  created with the limit \<open>5/2\<close> takes a third participant, because
  \<^verbatim>\<open>participants.size >= maxParticipants\<close> is still false at size 2.
\<close>

theorem capacity_counterexample:
  "map_option over_capacity (map_of (rooms (state_after negative_room)) ''550000'') = Some True \<and>
   map_of (rooms (state_after fractional_room)) ''550000''
     = Some \<lparr>number = ''7'',
             participants = [(''a'', ''alice''), (''b'', ''bob''), (''c'', ''carol'')],
             maxParticipants = 5 / 2, messages = []\<rparr>"
  by (simp add: negative_room_def fractional_room_def over_capacity_def eval_defs)

text \<open>
  C1, amended. In every state reached from the empty server, a room whose
  \<^verbatim>\<open>maxParticipants\<close> is a whole number and at least 1 never has more participants
  than that (for any positive limit, whole or not, the number of participants stays below
  the limit plus one); and a \<^verbatim>\<open>join_room\<close> that finds
  \<^verbatim>\<open>participants.size >= maxParticipants\<close> answers the room-full \<^verbatim>\<open>join_error\<close>
  and returns the state unchanged, the participant map and the message log with it.
\<close>

theorem capacity_respected:
  "(run init_state evs = Some (st, out) \<and> map_of (rooms st) p = Some r \<longrightarrow>
      (maxParticipants r \<in> \<int> \<and> 1 \<le> maxParticipants r \<longrightarrow> \<not> over_capacity r) \<and>
      (0 < maxParticipants r \<longrightarrow>
         real (length (participants r)) < maxParticipants r + 1)) \<and>
   (map_of (rooms st0) q = Some r0 \<and> maxParticipants r0 \<le> real (length (participants r0)) \<longrightarrow>
      join_room st0 sid q nick = (st0, [(ToSocket sid, JoinError msg_llena)]))"
proof (intro conjI impI)
  assume a: "run init_state evs = Some (st, out) \<and> map_of (rooms st) p = Some r"
  have b: "0 < maxParticipants r \<Longrightarrow> real (length (participants r)) < maxParticipants r + 1"
    by (rule run_capacity [where st = init_state and evs = evs and st' = st and p = p])
       (use a in \<open>simp_all add: init_state_def\<close>)
  {
    assume "0 < maxParticipants r"
    then show "real (length (participants r)) < maxParticipants r + 1" by (rule b)
  next
    assume w: "maxParticipants r \<in> \<int> \<and> 1 \<le> maxParticipants r"
    with b have "real (length (participants r)) < maxParticipants r + 1" by simp
    with w have "real (length (participants r)) \<le> maxParticipants r"
      by (simp add: whole_limit)
    then show "\<not> over_capacity r" by (simp add: over_capacity_def)
  }
next
  assume "map_of (rooms st0) q = Some r0 \<and> maxParticipants r0 \<le> real (length (participants r0))"
  then show "join_room st0 sid q nick = (st0, [(ToSocket sid, JoinError msg_llena)])"
    by (simp add: join_room_full)
qed

theorem capacity_respected_witness:
  "\<not> over_capacity \<lparr>number = ''7'', participants = [(''a'', ''alice''), (''b'', ''bob'')],
                      maxParticipants = 2, messages = []\<rparr> \<and>
   join_room (state_after room_of_two) ''c'' ''550000'' ''carol''
     = (state_after room_of_two, [(ToSocket ''c'', JoinError msg_llena)])"
  using capacity_respected [where evs = room_of_two and st = "state_after room_of_two"
          and out = "output_after room_of_two" and p = "''550000''"
          and r = "the (map_of (rooms (state_after room_of_two)) ''550000'')"
          and ?st0.0 = "state_after room_of_two" and q = "''550000''"
          and ?r0.0 = "the (map_of (rooms (state_after room_of_two)) ''550000'')"
          and sid = "''c''" and nick = "''carol''"]
  by (simp add: room_of_two_run room_of_two_rooms)

text \<open>
  C8, as stated, fails: the server does not clamp the limit. A request with
  \<^verbatim>\<open>maxParticipants: 100\<close> creates a room whose limit is 100.
\<close>

theorem maxParticipants_counterexample:
  "map_option maxParticipants (map_of (rooms (state_after room_of_hundred)) ''550000'') = Some 100"
  by (simp add: room_of_hundred_def eval_defs)

text \<open>
  C8, amended. The limit of a new room is the value of the request, or 5 when the request
  has none or has 0; and it stays what it is along every run during which the room stays
  in the registry.
\<close>

theorem maxParticipants_fixed:
  "(create_room st sid maxP rn nick us = Some (st1, out1) \<longrightarrow>
      (\<exists>p. generateUniquePin (rooms st) us = Some p \<and>
           map_option maxParticipants (map_of (rooms st1) p)
             = Some (case maxP of None \<Rightarrow> 5 | Some m \<Rightarrow> if m = 0 then 5 else m))) \<and>
   (run st evs = Some (st2, out2) \<and> alive_through q st evs \<and> map_of (rooms st) q = Some r \<longrightarrow>
      map_option maxParticipants (map_of (rooms st2) q) = Some (maxParticipants r))"
proof (intro conjI impI)
  assume "create_room st sid maxP rn nick us = Some (st1, out1)"
  from create_room_rooms [OF this]
  show "\<exists>p. generateUniquePin (rooms st) us = Some p \<and>
           map_option maxParticipants (map_of (rooms st1) p)
             = Some (case maxP of None \<Rightarrow> 5 | Some m \<Rightarrow> if m = 0 then 5 else m)"
    by (auto simp: new_room_def)
next
  assume "run st evs = Some (st2, out2) \<and> alive_through q st evs \<and> map_of (rooms st) q = Some r"
  then have "\<exists>r'. map_of (rooms st2) q = Some r' \<and> maxParticipants r' = maxParticipants r
           \<and> number r' = number r"
    by (intro run_fixed_fields [where st = st and evs = evs and out = out2]) simp_all
  then show "map_option maxParticipants (map_of (rooms st2) q) = Some (maxParticipants r)"
    by auto
qed

theorem maxParticipants_fixed_witness:
  "generateUniquePin (rooms (state_after [Connect ''a'', Connect ''b''])) [1 / 2] = Some ''550000'' \<and>
   map_option maxParticipants
     (map_of (rooms (state_after room_of_hundred)) ''550000'') = Some 100 \<and>
   map_option maxParticipants
     (map_of (rooms (state_from (state_after room_of_hundred) come_and_go)) ''550000'') = Some 100"
  using maxParticipants_fixed [where st = "state_after [Connect ''a'', Connect ''b'']"
          and sid = "''a''" and maxP = "Some 100" and rn = "Some ''7''" and nick = "''alice''"
          and us = "[1 / 2]" and ?st1.0 = "state_after room_of_hundred"
          and ?out1.0 = "drop 2 (output_after room_of_hundred)"]
        maxParticipants_fixed [where st = "state_after room_of_hundred" and evs = come_and_go
          and ?st2.0 = "state_from (state_after room_of_hundred) come_and_go"
          and ?out2.0 = "output_from (state_after room_of_hundred) come_and_go"
          and q = "''550000''"
          and r = "the (map_of (rooms (state_after room_of_hundred)) ''550000'')"]
  by (simp add: room_of_hundred_def come_and_go_def eval_defs)

text \<open>
  C5. Along a run during which room \<open>p\<close> stays in the registry, the
  \<^verbatim>\<open>receive_message\<close> broadcasts to \<open>p\<close> are the messages sent to \<open>p\<close>, in the order
  of sending; the room's log is its log at the start followed by the same sequence; and a
  socket that then joins \<open>p\<close> gets exactly this log as its \<^verbatim>\<open>room_history\<close>. A room
  starts with an empty log, so from its creation on the log is the sequence sent.
\<close>

theorem message_order:
  assumes "run st evs = Some (st', out)" and "alive_through p st evs"
    and "map_of (rooms st) p = Some r" and "p \<noteq> []"
  shows "received p out = sent_to p st evs \<and>
         (\<exists>r'. map_of (rooms st') p = Some r' \<and>
            messages r' = messages r @ sent_to p st evs \<and>
            (real (length (participants r')) < maxParticipants r' \<longrightarrow>
               hd (snd (join_room st' sid p nick))
                 = (ToSocket sid, RoomHistory (messages r @ sent_to p st evs)))) \<and>
         (create_room st0 sid0 maxP rn nick0 us = Some (st, out0) \<and>
            map_of (rooms st0) p = None \<longrightarrow> messages r = [])"
proof (intro conjI impI)
  from run_messages [OF assms] obtain r' where
    r': "map_of (rooms st') p = Some r'" "messages r' = messages r @ sent_to p st evs"
        "received p out = sent_to p st evs"
    by blast
  show "received p out = sent_to p st evs" by (rule r'(3))
  show "\<exists>r'. map_of (rooms st') p = Some r' \<and>
            messages r' = messages r @ sent_to p st evs \<and>
            (real (length (participants r')) < maxParticipants r' \<longrightarrow>
               hd (snd (join_room st' sid p nick))
                 = (ToSocket sid, RoomHistory (messages r @ sent_to p st evs)))"
    using r'(1,2) by (auto simp: join_room_success)
next
  assume "create_room st0 sid0 maxP rn nick0 us = Some (st, out0) \<and> map_of (rooms st0) p = None"
  with assms(3) show "messages r = []"
    by (auto dest!: create_room_rooms simp: new_room_def split: if_splits)
qed

theorem message_order_witness:
  "received ''550000'' (output_from (state_after created_for_three) conversation)
     = [msg1, msg2, msg3] \<and>
   hd (snd (join_room (state_from (state_after created_for_three) conversation)
              ''c'' ''550000'' ''carol''))
     = (ToSocket ''c'', RoomHistory [msg1, msg2, msg3])"
  using message_order [where st = "state_after created_for_three" and evs = conversation
          and st' = "state_from (state_after created_for_three) conversation"
          and out = "output_from (state_after created_for_three) conversation"
          and p = "''550000''" and sid = "''c''" and nick = "''carol''"
          and r = "the (map_of (rooms (state_after created_for_three)) ''550000'')"
          and ?st0.0 = "state_after [Connect ''a'', Connect ''b'', Connect ''c'']"
          and ?sid0.0 = "''a''" and maxP = "Some 3" and rn = "Some ''7''"
          and ?nick0.0 = "''alice''" and us = "[1 / 2]"
          and ?out0.0 = "drop 3 (output_after created_for_three)"]
  by (simp add: created_for_three_def conversation_def received_def eval_defs)

text \<open>
  C7. In every state reached from the empty server, a \<^verbatim>\<open>send_message\<close> from a socket
  without a current room, or whose current room is no longer in the registry, changes
  nothing and emits nothing; from a socket whose current room \<open>p\<close> is in the registry it
  appends the message to the log of \<open>p\<close> and emits \<^verbatim>\<open>receive_message\<close> to the
  Socket.IO room \<open>p\<close>.
\<close>

theorem send_message_effect:
  assumes "run init_state evs = Some (st, out)"
  shows "(current_of st sid = None \<or>
            (\<exists>q. current_of st sid = Some q \<and> map_of (rooms st) q = None) \<longrightarrow>
            send_message st sid msg = (st, [])) \<and>
         (current_of st sid = Some p \<and> map_of (rooms st) p = Some r \<longrightarrow>
            send_message st sid msg =
              (st\<lparr>rooms := AList.update p (r\<lparr>messages := messages r @ [msg]\<rparr>) (rooms st)\<rparr>,
               [(ToRoom p, ReceiveMessage msg)]))"
proof (intro conjI impI)
  assume "current_of st sid = None \<or>
            (\<exists>q. current_of st sid = Some q \<and> map_of (rooms st) q = None)"
  then show "send_message st sid msg = (st, [])" by (rule send_message_dropped)
next
  assume a: "current_of st sid = Some p \<and> map_of (rooms st) p = Some r"
  have "p \<noteq> []"
    by (rule run_pins_nonempty [OF assms, where p = p and r' = r])
       (use a in \<open>simp_all add: init_state_def\<close>)
  with a show "send_message st sid msg =
              (st\<lparr>rooms := AList.update p (r\<lparr>messages := messages r @ [msg]\<rparr>) (rooms st)\<rparr>,
               [(ToRoom p, ReceiveMessage msg)])"
    by (simp add: send_message_relayed)
qed

theorem send_message_effect_witness:
  "send_message (state_after room_of_two) ''c'' stray = (state_after room_of_two, []) \<and>
   snd (send_message (state_after room_of_two) ''b'' msg2)
     = [(ToRoom ''550000'', ReceiveMessage msg2)] \<and>
   map_option messages
     (map_of (rooms (fst (send_message (state_after room_of_two) ''b'' msg2))) ''550000'')
     = Some [msg2]"
  using send_message_effect [where evs = room_of_two and st = "state_after room_of_two"
          and out = "output_after room_of_two" and sid = "''c''" and msg = stray]
        send_message_effect [where evs = room_of_two and st = "state_after room_of_two"
          and out = "output_after room_of_two" and sid = "''b''" and msg = msg2
          and p = "''550000''"
          and r = "the (map_of (rooms (state_after room_of_two)) ''550000'')"]
  by (simp add: room_of_two_def eval_defs)

text \<open>
  C9, as stated, fails: the draw is \<^verbatim>\<open>Math.floor(100000 + Math.random() * 900000)\<close>,
  a number from 100000 to 999999 also when the product and the sum are rounded as
  doubles, so no pin starts with the digit 0. With an empty registry, no sequence of
  draws makes the allocator return 000000.
\<close>

theorem leading_zero_counterexample:
  "\<not> (\<exists>us. list_all valid_sample us \<and> generateUniquePin [] us = Some ''000000'')"
  by (auto dest: generateUniquePin_shape)

text \<open>
  C9, amended. The allocator returns a string of six decimal digits whose first digit is
  not 0 and that is not a key of the registry; every number from 100000 to 999999 whose
  string is not in use is the result for some draw; and the result is the pin of the first
  draw that does not collide with the registry (\<open>None\<close> when all the draws given collide).
\<close>

theorem pin_allocator:
  "(list_all valid_sample us \<and> generateUniquePin rs us = Some p \<longrightarrow>
      \<not> has rs p \<and> length p = 6 \<and> list_all is_digit p \<and> hd p \<noteq> CHR ''0'') \<and>
   (100000 \<le> n \<and> n \<le> 999999 \<and> \<not> has rs (toString n) \<longrightarrow>
      (\<exists>u. valid_sample u \<and> generateUniquePin rs [u] = Some (toString n))) \<and>
   generateUniquePin rs us =
     (case dropWhile (\<lambda>u. has rs (sample_pin u)) us of
        [] \<Rightarrow> None
      | u # rest \<Rightarrow> Some (sample_pin u))"
proof (intro conjI impI)
  assume a: "list_all valid_sample us \<and> generateUniquePin rs us = Some p"
  then show "\<not> has rs p" by (auto dest: generateUniquePin_free)
  from a generateUniquePin_shape [of us rs p]
  show "length p = 6" "list_all is_digit p" "hd p \<noteq> CHR ''0''" by simp_all
next
  assume a: "100000 \<le> n \<and> n \<le> 999999 \<and> \<not> has rs (toString n)"
  then have "100000 \<le> n" "n \<le> 999999" by simp_all
  from sample_number_onto [OF this] obtain u where
    u: "valid_sample u" "sample_number u = n" by blast
  with a have "valid_sample u \<and> generateUniquePin rs [u] = Some (toString n)"
    by (simp add: Let_def sample_pin_def)
  then show "\<exists>u. valid_sample u \<and> generateUniquePin rs [u] = Some (toString n)" ..
next
  show "generateUniquePin rs us =
     (case dropWhile (\<lambda>u. has rs (sample_pin u)) us of
        [] \<Rightarrow> None
      | u # rest \<Rightarrow> Some (sample_pin u))"
    by (rule generateUniquePin_dropWhile)
qed

theorem pin_allocator_witness:
  "generateUniquePin (rooms (state_after room_of_two)) [1 / 2, 3 / 4] = Some ''775000'' \<and>
   \<not> has (rooms (state_after room_of_two)) ''775000'' \<and>
   (\<exists>u. valid_sample u \<and>
      generateUniquePin (rooms (state_after room_of_two)) [u] = Some ''123456'')"
  using pin_allocator [where us = "[1 / 2, 3 / 4]" and rs = "rooms (state_after room_of_two)"
          and p = "''775000''" and n = 123456]
  by (simp add: room_of_two_rooms valid_sample_def is_double_half is_double_quarters
        sample_pin_def sample_number_def toString.simps digit_def has_def Let_def)

text \<open>
  C2. The pin of a new room is not a key of the registry at allocation time, the room is
  stored under it and every other entry of the registry is left as it was; and along a
  run in which no deletion timer fires, the pins announced by \<^verbatim>\<open>room_created\<close> are
  pairwise distinct and none of them was in the registry at the start.
\<close>

theorem pins_distinct:
  "(create_room st sid maxP rn nick us = Some (st1, out1) \<longrightarrow>
      (\<exists>p. created_pins out1 = [p] \<and> map_of (rooms st) p = None \<and>
           map_of (rooms st1) p = Some (new_room maxP rn sid nick) \<and>
           (\<forall>q. q \<noteq> p \<longrightarrow> map_of (rooms st1) q = map_of (rooms st) q))) \<and>
   (run st evs = Some (st2, out2) \<and> list_all (\<lambda>e. \<not> is_fire e) evs \<longrightarrow>
      distinct (created_pins out2) \<and>
      (\<forall>p\<in>set (created_pins out2). map_of (rooms st) p = None))"
proof (intro conjI impI)
  assume "create_room st sid maxP rn nick us = Some (st1, out1)"
  from created_pins_create_room [OF this] obtain p where
    p: "created_pins out1 = [p]" "map_of (rooms st) p = None"
       "map_of (rooms st1) = (map_of (rooms st))(p \<mapsto> new_room maxP rn sid nick)"
    by blast
  then have "created_pins out1 = [p] \<and> map_of (rooms st) p = None \<and>
           map_of (rooms st1) p = Some (new_room maxP rn sid nick) \<and>
           (\<forall>q. q \<noteq> p \<longrightarrow> map_of (rooms st1) q = map_of (rooms st) q)"
    by simp
  then show "\<exists>p. created_pins out1 = [p] \<and> map_of (rooms st) p = None \<and>
           map_of (rooms st1) p = Some (new_room maxP rn sid nick) \<and>
           (\<forall>q. q \<noteq> p \<longrightarrow> map_of (rooms st1) q = map_of (rooms st) q)" ..
next
  assume a: "run st evs = Some (st2, out2) \<and> list_all (\<lambda>e. \<not> is_fire e) evs"
  then have r: "run st evs = Some (st2, out2)" and f: "list_all (\<lambda>e. \<not> is_fire e) evs"
    by simp_all
  from run_created [OF r f] show "distinct (created_pins out2)" by simp
  from run_created [OF r f] show "\<forall>p\<in>set (created_pins out2). map_of (rooms st) p = None"
    by simp
qed

theorem pins_distinct_witness:
  "created_pins (output_from (state_after room_of_two)
                   [CreateRoom ''c'' None None ''carol'' [1 / 2, 3 / 4]]) = [''775000''] \<and>
   created_pins (output_after three_rooms) = [''550000'', ''775000'', ''325000'']"
  using pins_distinct [where st = "state_after room_of_two" and sid = "''c''" and maxP = None
          and rn = None and nick = "''carol''" and us = "[1 / 2, 3 / 4]"
          and ?st1.0 = "state_from (state_after room_of_two)
                          [CreateRoom ''c'' None None ''carol'' [1 / 2, 3 / 4]]"
          and ?out1.0 = "output_from (state_after room_of_two)
                          [CreateRoom ''c'' None None ''carol'' [1 / 2, 3 / 4]]"]
        pins_distinct [where st = init_state and evs = three_rooms
          and ?st2.0 = "state_after three_rooms" and ?out2.0 = "output_after three_rooms"]
  by (simp add: three_rooms_def room_of_two_def created_pins_def eval_defs)

text \<open>
  C4. \<^verbatim>\<open>roomTimers\<close> is declared inside the connection callback, so every connection
  has a map of its own, and \<^verbatim>\<open>leaveCurrentRoom\<close> can clear only a timer that the same
  connection armed. After \<open>a\<close> has emptied the room, \<open>b\<close> has joined it and left it again,
  two deletion timers for the same pin are pending: timer 0 of \<open>a\<close> and timer 1 of \<open>b\<close>.
\<close>

theorem two_timers_for_one_pin:
  "live_timers (state_after (handover @ [LeaveRoom ''b''])) ''550000'' = [0, 1]"
  by (simp add: handover_def live_timers_def eval_defs)

text \<open>
  C3. For the same reason the \<^verbatim>\<open>join_room\<close> of \<open>b\<close> does not cancel the timer that
  \<open>a\<close> armed: it is still pending after the join. When \<open>b\<close> leaves and the old timer
  then fires, the room is deleted, although the timer armed by the leave of \<open>b\<close> has not
  expired.
\<close>

theorem stale_timer_survives_join:
  "pending (state_after handover)
     = [(0, \<lparr>owner = ''a'', tpin = ''550000'', delay = 30000\<rparr>)] \<and>
   map fst (rooms (state_after (handover @ [LeaveRoom ''b'']))) = [''550000''] \<and>
   rooms (state_after (handover @ [LeaveRoom ''b'', TimerFire 0])) = []"
  by (simp add: handover_def eval_defs)

end
